theory Spec2Isabelle
  imports Complex_Main "HOL-Library.Sublist"
begin

section \<open>The trading worker (src/src/worker.ts)\<close>

text \<open>
  JavaScript numbers are modelled as \<^typ>\<open>real\<close>: the worker only compares, adds,
  multiplies by a constant and halves them. The module-level variables of worker.ts are
  the fields of \<open>worker_state\<close>; what the worker does to the outside world (calls of the
  trade module, messages posted to the parent, timers) is recorded in the state as well,
  so that a property of the effects is a property of the final state.
\<close>

subsection \<open>Constants and data\<close>

definition SLIPPAGE :: real where
  "SLIPPAGE = 3 / 10"

definition MIN_BUY_THRESHOLD :: real where
  "MIN_BUY_THRESHOLD = 1 / 100000"

definition MIN_BALANCE_THRESHOLD :: real where
  "MIN_BALANCE_THRESHOLD = 1 / 1000"

definition LAMPORTS_PER_SOL :: real where
  "LAMPORTS_PER_SOL = 1000000000"

text \<open>common.TokenMeta, as far as worker.ts reads it. \<open>raydium_pool = None\<close> is the
  JavaScript \<open>null\<close>.\<close>

record TokenMeta =
  mint :: string
  symbol :: string
  usd_market_cap :: real
  raydium_pool :: "string option"

text \<open>common.WorkerConfig, as far as worker.ts reads it (\<open>WORKER_CONFIG.id\<close>,
  \<open>WORKER_CONFIG.inputs.*\<close>).\<close>

record WorkerInputs =
  start_buy :: real
  mcap_threshold :: real
  spend_limit :: real
  buy_interval :: real

record WorkerConfig =
  worker_id :: nat
  inputs :: WorkerInputs

text \<open>The lines pushed to \<open>MESSAGE_BUFFER\<close>, one constructor per template string.\<close>

datatype line =
    Buying_the_token
  | Error_getting_balance_change
  | Bought real string
  | Error_buying_the_token
  | Started_selling
  | No_tokens_to_sell
  | Sold real string
  | Error_selling_the_token
  | Market_cap_threshold_reached
  | Spend_limit_reached
  | Mint_metadata_not_available
  | Sleeping_for real

text \<open>What \<open>parentPort.postMessage\<close> is called with.\<close>

datatype post =
    Buffer "line list"
  | Received_sell_command
  | Received_collect_command
  | Stopped_by_the_main_thread
  | Finished

text \<open>Calls of the trade module (trade.ts is not part of the sources; a call is recorded
  when it is issued, its result comes from the environment).\<close>

datatype trade_call =
    Buy_token real
  | Get_balance_change string
  | Get_token_balance string
  | Sell_token real

text \<open>
  A timer made by \<open>setTimeout\<close> is armed, cleared by \<open>clearTimeout\<close>, or has fired; the
  promise that \<open>sleep\<close> makes with it is pending or resolved (its waiter released).
  \<open>sleeps ! k\<close> is the timer and the promise of the \<open>k\<close>-th call of \<open>sleep\<close>.

  \<open>CANCEL_SLEEP\<close> is declared without a value (\<open>undefined\<close>, here \<open>None\<close>); the only
  assignment gives it the \<open>cancel\<close> closure of a \<open>sleep\<close>, which is determined by the call
  of \<open>sleep\<close> that made it (\<open>Some k\<close>).
\<close>

datatype timeout_status = Armed | Cleared | Fired

datatype promise_status = Pending | Resolved

record worker_state =
  MINT_METADATA :: "TokenMeta option"
  IS_DONE :: bool
  CURRENT_SPENDINGS :: real
  CURRENT_BUY_AMOUNT :: real
  IS_SECOND_BUY :: bool
  START_SELL :: bool
  CANCEL_SLEEP :: "nat option"
  MESSAGE_BUFFER :: "line list"
  sleeps :: "(timeout_status \<times> promise_status) list"
  posted :: "post list"
  calls :: "trade_call list"

text \<open>The module-level initialisers (worker.ts, lines 13-21).\<close>

definition initial_state :: worker_state where
  "initial_state =
     \<lparr>MINT_METADATA = None, IS_DONE = False, CURRENT_SPENDINGS = 0,
      CURRENT_BUY_AMOUNT = 0, IS_SECOND_BUY = False, START_SELL = False,
      CANCEL_SLEEP = None, MESSAGE_BUFFER = [], sleeps = [],
      posted = [], calls = []\<rparr>"

definition push :: "line \<Rightarrow> worker_state \<Rightarrow> worker_state" where
  "push l s = s\<lparr>MESSAGE_BUFFER := MESSAGE_BUFFER s @ [l]\<rparr>"

definition postMessage :: "post \<Rightarrow> worker_state \<Rightarrow> worker_state" where
  "postMessage p s = s\<lparr>posted := posted s @ [p]\<rparr>"

definition call :: "trade_call \<Rightarrow> worker_state \<Rightarrow> worker_state" where
  "call c s = s\<lparr>calls := calls s @ [c]\<rparr>"

subsection \<open>The cancellable sleep (lines 23-36)\<close>

text \<open>\<open>resolve()\<close> of the promise of sleep \<open>k\<close>; resolving twice changes nothing.\<close>

definition resolve :: "nat \<Rightarrow> worker_state \<Rightarrow> worker_state" where
  "resolve k s =
     (if k < length (sleeps s)
      then s\<lparr>sleeps := (sleeps s)[k := (fst (sleeps s ! k), Resolved)]\<rparr> else s)"

definition is_resolved :: "nat \<Rightarrow> worker_state \<Rightarrow> bool" where
  "is_resolved k s = (k < length (sleeps s) \<and> snd (sleeps s ! k) = Resolved)"

text \<open>\<open>clearTimeout\<close>: an armed timer is cleared, any other is left as it is.\<close>

definition clearTimeout :: "nat \<Rightarrow> worker_state \<Rightarrow> worker_state" where
  "clearTimeout k s =
     (if k < length (sleeps s) \<and> fst (sleeps s ! k) = Armed
      then s\<lparr>sleeps := (sleeps s)[k := (Cleared, snd (sleeps s ! k))]\<rparr> else s)"

text \<open>\<open>sleep\<close> arms a new timer with a pending promise and returns its number: the
  promise and the \<open>cancel\<close> closure of the result are both determined by it.\<close>

definition sleep :: "real \<Rightarrow> worker_state \<Rightarrow> nat \<times> worker_state" where
  "sleep seconds s = (length (sleeps s), s\<lparr>sleeps := sleeps s @ [(Armed, Pending)]\<rparr>)"

text \<open>The \<open>cancel\<close> closure of sleep \<open>k\<close> (lines 29-32).\<close>

definition cancel :: "nat \<Rightarrow> worker_state \<Rightarrow> worker_state" where
  "cancel k s = resolve k (clearTimeout k s)"

text \<open>The timer runs out by itself: its callback is \<open>resolve\<close>.\<close>

definition timeout_fires :: "nat \<Rightarrow> worker_state \<Rightarrow> worker_state" where
  "timeout_fires k s =
     (if k < length (sleeps s) \<and> fst (sleeps s ! k) = Armed
      then resolve k (s\<lparr>sleeps := (sleeps s)[k := (Fired, snd (sleeps s ! k))]\<rparr>) else s)"

subsection \<open>The message handler (lines 126-157)\<close>

text \<open>
  The commands that reach a worker while its loop runs. The \<open>buy\<close> command is the one
  that starts the loop (\<open>on_buy\<close> below); the main thread sends it once.
\<close>

datatype command = Sell | Collect | Stop | Mint "TokenMeta option"

text \<open>Calling \<open>undefined\<close> throws a TypeError; nothing in the handler catches it.\<close>

datatype error = TypeError

type_synonym fallible = "(error \<times> worker_state) + worker_state"

definition call_CANCEL_SLEEP :: "worker_state \<Rightarrow> fallible" where
  "call_CANCEL_SLEEP s =
     (case CANCEL_SLEEP s of
        None \<Rightarrow> Inl (TypeError, s)
      | Some k \<Rightarrow> Inr (cancel k s))"

fun on_message :: "command \<Rightarrow> worker_state \<Rightarrow> fallible" where
  "on_message Sell s =
     (if \<not> START_SELL s
      then Inr ((postMessage Received_sell_command s)\<lparr>IS_DONE := True, START_SELL := True\<rparr>)
      else Inr s)"
| "on_message Collect s =
     (if \<not> IS_DONE s
      then call_CANCEL_SLEEP ((postMessage Received_collect_command s)\<lparr>IS_DONE := True\<rparr>)
      else Inr s)"
| "on_message Stop s =
     (if \<not> IS_DONE s
      then call_CANCEL_SLEEP ((postMessage Stopped_by_the_main_thread s)\<lparr>IS_DONE := True\<rparr>)
      else Inr s)"
| "on_message (Mint d) s = Inr (s\<lparr>MINT_METADATA := d\<rparr>)"

text \<open>
  While the loop waits for a promise the handler runs for every message that arrives,
  in order. An uncaught error in the handler ends the worker.
\<close>

fun deliver :: "command list \<Rightarrow> worker_state \<Rightarrow> fallible" where
  "deliver [] s = Inr s"
| "deliver (c # cs) s =
     (case on_message c s of
        Inl f \<Rightarrow> Inl f
      | Inr s' \<Rightarrow> deliver cs s')"

text \<open>The state a fallible computation leaves behind, thrown or not.\<close>

definition state_of :: "fallible \<Rightarrow> worker_state" where
  "state_of r = (case r of Inl f \<Rightarrow> snd f | Inr s \<Rightarrow> s)"

subsection \<open>buy (lines 38-58)\<close>

text \<open>
  What the outside world answers during one cycle of the loop.
  \<open>common.normal_random\<close> is not part of the sources: \<open>rand_buy\<close> and \<open>rand_sleep\<close> are the
  draws as functions of the mean and the standard deviation they are called with.
  \<open>None\<close> as a result means that the call throws.

  The line that reports the purchase (line 54) reads \<open>MINT_METADATA.symbol\<close> inside the
  \<open>try\<close> block: when a \<open>mint\<close> message has replaced the asset by \<open>null\<close> or \<open>undefined\<close>
  while \<open>buy\<close> was waiting, it throws after the spendings, the buy size and the flag
  have been updated, and the \<open>catch\<close> branch reports an error.
\<close>

record env =
  rand_buy :: "real \<Rightarrow> real \<Rightarrow> real"
  buy_token_result :: "string option"
  during_buy_token :: "command list"
  balance_change_result :: "real option"
  during_balance_change :: "command list"
  rand_sleep :: "real \<Rightarrow> real \<Rightarrow> real"
  during_sleep :: "command list"

definition buy :: "WorkerConfig \<Rightarrow> env \<Rightarrow> worker_state \<Rightarrow> fallible" where
  "buy cfg e s0 =
     (let s = push Buying_the_token s0;
          std = CURRENT_BUY_AMOUNT s * (1 / 10);
          amount = rand_buy e (start_buy (inputs cfg)) std
      in case deliver (during_buy_token e) (call (Buy_token amount) s) of
           Inl f \<Rightarrow> Inl f
         | Inr s1 \<Rightarrow>
            (case buy_token_result e of
               None \<Rightarrow> Inr (push Error_buying_the_token s1)
             | Some signature \<Rightarrow>
                (case deliver (during_balance_change e) (call (Get_balance_change signature) s1) of
                   Inl f \<Rightarrow> Inl f
                 | Inr s2 \<Rightarrow>
                    (let s3 = (case balance_change_result e of
                                 None \<Rightarrow> push Error_getting_balance_change s2
                               | Some b \<Rightarrow> s2);
                         balance_change = (case balance_change_result e of
                                             None \<Rightarrow> amount
                                           | Some b \<Rightarrow> b);
                         s4 = s3\<lparr>CURRENT_SPENDINGS := CURRENT_SPENDINGS s3 + balance_change\<rparr>;
                         s5 = (if IS_SECOND_BUY s4
                               then s4\<lparr>CURRENT_BUY_AMOUNT := CURRENT_BUY_AMOUNT s4 / 2\<rparr>
                               else s4);
                         s6 = s5\<lparr>IS_SECOND_BUY := \<not> IS_SECOND_BUY s5\<rparr>
                     in case MINT_METADATA s6 of
                          None \<Rightarrow> Inr (push Error_buying_the_token s6)
                        | Some m \<Rightarrow> Inr (push (Bought amount signature) s6)))))"

subsection \<open>sell (lines 60-78)\<close>

text \<open>
  What the outside world answers during the sell. \<open>PublicKey_valid\<close> says for which
  strings \<open>new PublicKey\<close> returns (otherwise it throws). \<open>token_balance_result\<close> is the
  \<open>uiAmount\<close> of the balance that \<open>trade.get_token_balance\<close> returns (\<open>Returns None\<close> is
  \<open>null\<close>).
\<close>

datatype 'a ret = Throws | Returns 'a

record sell_env =
  PublicKey_valid :: "string \<Rightarrow> bool"
  token_balance_result :: "real option ret"
  during_token_balance :: "command list"
  sell_token_result :: "string ret"
  during_sell_token :: "command list"

text \<open>The part of \<open>sell\<close> after the balance has arrived (lines 64-74). It reads
  \<open>MINT_METADATA\<close> again: a \<open>mint\<close> message may have replaced it meanwhile.\<close>

definition sell_balance :: "sell_env \<Rightarrow> real option \<Rightarrow> worker_state \<Rightarrow> fallible" where
  "sell_balance se uiAmount s1 =
     (case uiAmount of
        None \<Rightarrow> Inr (push No_tokens_to_sell s1)
      | Some b \<Rightarrow>
          if b = 0 then Inr (push No_tokens_to_sell s1)
          else
            (case MINT_METADATA s1 of
               None \<Rightarrow> Inr (push Error_selling_the_token s1)
             | Some m1 \<Rightarrow>
                (case raydium_pool m1 of
                   None \<Rightarrow>
                     (case deliver (during_sell_token se) (call (Sell_token b) s1) of
                        Inl f \<Rightarrow> Inl f
                      | Inr s2 \<Rightarrow>
                         (case sell_token_result se of
                            Throws \<Rightarrow> Inr (push Error_selling_the_token s2)
                          | Returns signature \<Rightarrow> Inr (push (Sold b signature) s2)))
                 | Some pool \<Rightarrow> Inr (push (Sold b []) s1))))"

definition sell :: "sell_env \<Rightarrow> worker_state \<Rightarrow> fallible" where
  "sell se s0 =
     (let s = push Started_selling s0
      in case MINT_METADATA s of
           None \<Rightarrow> Inr (push Error_selling_the_token s)
         | Some m \<Rightarrow>
             if \<not> PublicKey_valid se (mint m) then Inr (push Error_selling_the_token s)
             else
               (case deliver (during_token_balance se) (call (Get_token_balance (mint m)) s) of
                  Inl f \<Rightarrow> Inl f
                | Inr s1 \<Rightarrow>
                   (case token_balance_result se of
                      Throws \<Rightarrow> Inr (push Error_selling_the_token s1)
                    | Returns uiAmount \<Rightarrow> sell_balance se uiAmount s1)))"

subsection \<open>control_loop (lines 80-111)\<close>

text \<open>What one pass through the body of the \<open>while\<close> loop ends in.\<close>

datatype step = Break worker_state | Continue worker_state | Crash error worker_state

text \<open>\<open>await promise\<close> (line 103): messages arrive until the promise of sleep \<open>k\<close> is
  resolved; if none of them resolves it, the timer fires.\<close>

fun await_promise :: "nat \<Rightarrow> command list \<Rightarrow> worker_state \<Rightarrow> fallible" where
  "await_promise k [] s = Inr (timeout_fires k s)"
| "await_promise k (c # cs) s =
     (case on_message c s of
        Inl f \<Rightarrow> Inl f
      | Inr s' \<Rightarrow> if is_resolved k s' then Inr s' else await_promise k cs s')"

text \<open>Lines 97-105: the pacing at the end of the loop body.\<close>

definition pace :: "WorkerConfig \<Rightarrow> env \<Rightarrow> worker_state \<Rightarrow> step" where
  "pace cfg e s =
     (let sleep_for = rand_sleep e (buy_interval (inputs cfg)) 5;
          s1 = push (Sleeping_for sleep_for) s;
          s2 = postMessage (Buffer (MESSAGE_BUFFER s1)) s1
      in if \<not> IS_DONE s2
         then
           (let (k, s3) = sleep sleep_for s2;
                s4 = s3\<lparr>CANCEL_SLEEP := Some k\<rparr>
            in case await_promise k (during_sleep e) s4 of
                 Inl f \<Rightarrow> Crash (fst f) (snd f)
               | Inr s5 \<Rightarrow> Continue (s5\<lparr>MESSAGE_BUFFER := []\<rparr>))
         else Continue (s2\<lparr>MESSAGE_BUFFER := []\<rparr>))"

text \<open>
  Lines 82-105: the loop body. \<open>MINT_METADATA = None\<close> stands for \<open>undefined\<close> and \<open>null\<close>;
  an object without keys, which line 82 rejects as well, is not a \<open>TokenMeta\<close> and is
  not modelled.
\<close>

definition cycle :: "WorkerConfig \<Rightarrow> env \<Rightarrow> worker_state \<Rightarrow> step" where
  "cycle cfg e s =
     (case MINT_METADATA s of
        Some m \<Rightarrow>
          if mcap_threshold (inputs cfg) \<le> usd_market_cap m
          then Break ((push Market_cap_threshold_reached s)\<lparr>START_SELL := True\<rparr>)
          else if CURRENT_SPENDINGS s < spend_limit (inputs cfg) * LAMPORTS_PER_SOL
                  \<and> CURRENT_BUY_AMOUNT s > MIN_BUY_THRESHOLD
          then (case buy cfg e s of
                  Inl f \<Rightarrow> Crash (fst f) (snd f)
                | Inr s1 \<Rightarrow> pace cfg e s1)
          else pace cfg e (push Spend_limit_reached s)
      | None \<Rightarrow> pace cfg e (push Mint_metadata_not_available s))"

text \<open>
  The \<open>while (!IS_DONE)\<close> loop. It may run for ever; the list of environments is its
  fuel, one element per pass, and \<open>Running\<close> is the loop that has not ended when the list
  is used up.
\<close>

datatype run = Running worker_state | Crashed error worker_state | Exited worker_state

fun while_loop :: "WorkerConfig \<Rightarrow> env list \<Rightarrow> worker_state \<Rightarrow> run" where
  "while_loop cfg [] s = (if IS_DONE s then Exited s else Running s)"
| "while_loop cfg (e # es) s =
     (if IS_DONE s then Exited s
      else (case cycle cfg e s of
              Break s' \<Rightarrow> Exited s'
            | Crash f s' \<Rightarrow> Crashed f s'
            | Continue s' \<Rightarrow> while_loop cfg es s'))"

text \<open>Lines 107-110, after the loop.\<close>

definition control_loop :: "WorkerConfig \<Rightarrow> env list \<Rightarrow> sell_env \<Rightarrow> worker_state \<Rightarrow> run" where
  "control_loop cfg es se s =
     (case while_loop cfg es s of
        Exited s1 \<Rightarrow>
          (case (if START_SELL s1 then sell se s1 else Inr s1) of
             Inl f \<Rightarrow> Crashed (fst f) (snd f)
           | Inr s2 \<Rightarrow> Exited (postMessage (Buffer (MESSAGE_BUFFER s2)) s2))
      | r \<Rightarrow> r)"


definition run_state :: "run \<Rightarrow> worker_state" where
  "run_state r = (case r of Running s \<Rightarrow> s | Crashed f s \<Rightarrow> s | Exited s \<Rightarrow> s)"

definition step_state :: "step \<Rightarrow> worker_state" where
  "step_state r = (case r of Break s \<Rightarrow> s | Continue s \<Rightarrow> s | Crash f s \<Rightarrow> s)"

text \<open>The buy and sell orders among the calls of the trade module.\<close>

fun is_buy :: "trade_call \<Rightarrow> bool" where
  "is_buy (Buy_token a) = True"
| "is_buy c = False"

fun is_sell :: "trade_call \<Rightarrow> bool" where
  "is_sell (Sell_token a) = True"
| "is_sell c = False"

definition buys :: "worker_state \<Rightarrow> trade_call list" where
  "buys s = filter is_buy (calls s)"

definition sells :: "worker_state \<Rightarrow> trade_call list" where
  "sells s = filter is_sell (calls s)"

text \<open>A sequence of buy attempts, one environment per attempt; \<open>succeeded\<close> says that
  \<open>trade.buy_token\<close> returned.\<close>

fun buy_attempts :: "WorkerConfig \<Rightarrow> env list \<Rightarrow> worker_state \<Rightarrow> fallible" where
  "buy_attempts cfg [] s = Inr s"
| "buy_attempts cfg (e # es) s =
     (case buy cfg e s of
        Inl f \<Rightarrow> Inl f
      | Inr s' \<Rightarrow> buy_attempts cfg es s')"

definition succeeded :: "env \<Rightarrow> bool" where
  "succeeded e = (buy_token_result e \<noteq> None)"

section \<open>The main thread (src/unnamed/part_000, src/src/bot.ts)\<close>

subsection \<open>validate_number (bot.ts, lines 45-49)\<close>

text \<open>The first argument is the result of \<open>parseInt\<close> (\<open>None\<close> is \<open>NaN\<close>); a bound that is
  \<open>None\<close> is the default, \<open>-Infinity\<close> or \<open>Infinity\<close>.\<close>

definition validate_number :: "int option \<Rightarrow> int option \<Rightarrow> int option \<Rightarrow> bool" where
  "validate_number num min_b max_b =
     (case num of
        None \<Rightarrow> False
      | Some n \<Rightarrow>
          if (case min_b of None \<Rightarrow> False | Some lo \<Rightarrow> n \<le> lo)
             \<or> (case max_b of None \<Rightarrow> False | Some hi \<Rightarrow> n > hi)
          then False else True)"

subsection \<open>start_workers (part_000, lines 138-163)\<close>

text \<open>
  The configuration, with the fields that bot.ts declares. \<open>thread_cnt\<close> is a whole
  number: the prompt stores the result of \<open>parseInt\<close>.
\<close>

record BotConfig =
  thread_cnt :: int
  token_name :: string
  token_ticker :: string

type_synonym secret = "nat list"

text \<open>The \<open>workerData\<close> that a worker is made with. \<open>secrets[i]\<close> beyond the end of the
  array is \<open>undefined\<close>, here \<open>None\<close>.\<close>

record WorkerData =
  secret :: "secret option"
  wid :: int
  config :: BotConfig

datatype exit = Exit int

definition element :: "'a list \<Rightarrow> int \<Rightarrow> 'a option" where
  "element xs i = (if 0 \<le> i \<and> nat i < length xs then Some (xs ! nat i) else None)"

text \<open>The \<open>for\<close> loop of lines 145-162; a worker stands for the entry that is pushed to
  \<open>workers\<close>.\<close>

function start_workers_loop ::
  "BotConfig \<Rightarrow> secret list \<Rightarrow> int \<Rightarrow> WorkerData list \<Rightarrow> WorkerData list" where
  "start_workers_loop cfg secrets i workers =
     (if i < thread_cnt cfg
      then start_workers_loop cfg secrets (i + 1)
             (workers @ [\<lparr>secret = element secrets i, wid = i + 1, config = cfg\<rparr>])
      else workers)"
  by pat_completeness auto
termination
  by (relation "measure (\<lambda>(cfg, secrets, i, workers). nat (thread_cnt cfg - i))") auto

text \<open>\<open>secrets\<close> is what \<open>common.get_keys()\<close> returned. \<open>exit(1)\<close> ends the process.\<close>

definition start_workers ::
  "BotConfig \<Rightarrow> secret list \<Rightarrow> WorkerData list \<Rightarrow> exit + WorkerData list" where
  "start_workers cfg secrets workers =
     (if length secrets = 0 then Inl (Exit 1)
      else Inr (start_workers_loop cfg secrets 0 workers))"

subsection \<open>The log listener of wait_drop_sub (part_000, lines 90-123; bot.ts, lines 132-160)\<close>

text \<open>Public keys are compared by \<open>equals\<close>; a key is modelled by its text.\<close>

type_synonym PublicKey = string

record instruction =
  programId :: PublicKey
  data :: string
  accounts :: "PublicKey list"

record account_key =
  pubkey :: PublicKey
  signer :: bool

text \<open>\<open>tx.meta\<close>: the inner instructions, group by group, and the \<open>mint\<close> field of each
  post-transaction token balance. A field that is \<open>None\<close> is \<open>null\<close> or \<open>undefined\<close>.\<close>

record tx_meta =
  innerInstructions :: "instruction list list option"
  postTokenBalances :: "string list option"

text \<open>The parsed transaction: \<open>message\<close> is \<open>tx.transaction.message\<close>, given by its
  \<open>accountKeys\<close>.\<close>

record parsed_tx =
  meta :: "tx_meta option"
  message :: "account_key list option"

text \<open>What the listener is called with, and what \<open>connection.getParsedTransaction\<close>
  answers for its signature.\<close>

record notification =
  err :: bool
  logs :: "string list option"
  getParsedTransaction :: "parsed_tx option ret"

text \<open>
  What the libraries compute: the Metaplex deserializer (the decoded name and symbol and
  the number of bytes read, or \<open>None\<close> when it throws), the constructor of a public key
  from a text (\<open>None\<close> when it throws), and the identifier of the Metaplex program.
\<close>

record decoded =
  data_name :: string
  data_symbol :: string
  bytes_read :: int

record library =
  decode_metaplex_instr :: "string \<Rightarrow> decoded option"
  new_PublicKey :: "string \<Rightarrow> PublicKey option"
  metaplexProgramID :: PublicKey

text \<open>\<open>String.prototype.includes\<close>.\<close>

fun string_includes :: "string \<Rightarrow> string \<Rightarrow> bool" where
  "string_includes [] t = (t = [])"
| "string_includes (c # s) t = (prefix t (c # s) \<or> string_includes s t)"

text \<open>
  The body of the inner \<open>for\<close> loop (part_000, lines 102-113), for the value \<open>mnt\<close> of the
  variable \<open>mint\<close>: \<open>Inr\<close> is the value of \<open>mint\<close> after it, \<open>Inl\<close> its value when an
  exception leaves the \<open>try\<close> block. \<open>ptb\<close> is \<open>tx.meta.postTokenBalances\<close>: reading the
  \<open>mint\<close> of its first element throws when it is empty, and an empty text is falsy.
\<close>

definition scan_instruction ::
  "library \<Rightarrow> string \<Rightarrow> string \<Rightarrow> string list \<Rightarrow> instruction \<Rightarrow> PublicKey option
     \<Rightarrow> PublicKey option + PublicKey option" where
  "scan_instruction lib name ticker ptb ins mnt =
     (if programId ins \<noteq> metaplexProgramID lib then Inr mnt
      else
        (case decode_metaplex_instr lib (data ins) of
           None \<Rightarrow> Inl mnt
         | Some d \<Rightarrow>
             if bytes_read d \<le> 0 then Inr mnt
             else if data_name d = name \<and> string_includes (data_symbol d) ticker
             then (case ptb of
                     [] \<Rightarrow> Inl mnt
                   | b # bs \<Rightarrow>
                       if b \<noteq> []
                       then (case new_PublicKey lib b of
                               None \<Rightarrow> Inl mnt
                             | Some k \<Rightarrow> Inr (Some k))
                       else Inr (element (accounts ins) 1))
             else Inr mnt))"

text \<open>The same for bot.ts (lines 144-150), which has no token balances to look at.\<close>

definition scan_instruction_bot ::
  "library \<Rightarrow> string \<Rightarrow> string \<Rightarrow> instruction \<Rightarrow> PublicKey option
     \<Rightarrow> PublicKey option + PublicKey option" where
  "scan_instruction_bot lib name ticker ins mnt =
     (if programId ins \<noteq> metaplexProgramID lib then Inr mnt
      else
        (case decode_metaplex_instr lib (data ins) of
           None \<Rightarrow> Inl mnt
         | Some d \<Rightarrow>
             if bytes_read d \<le> 0 then Inr mnt
             else if data_name d = name \<and> string_includes (data_symbol d) ticker
             then Inr (element (accounts ins) 1)
             else Inr mnt))"

text \<open>A \<open>for\<close> loop over a list, with a body that may throw.\<close>

fun for_each :: "('a \<Rightarrow> 's \<Rightarrow> 's + 's) \<Rightarrow> 'a list \<Rightarrow> 's \<Rightarrow> 's + 's" where
  "for_each body [] s = Inr s"
| "for_each body (x # xs) s =
     (case body x s of
        Inl s' \<Rightarrow> Inl s'
      | Inr s' \<Rightarrow> for_each body xs s')"

text \<open>The value of the loop's variable after the loop, whether it ended or threw.\<close>

definition after :: "'s + 's \<Rightarrow> 's" where
  "after r = (case r of Inl s \<Rightarrow> s | Inr s \<Rightarrow> s)"

text \<open>What one call of the listener does: the value of \<open>mint\<close> after it, and whether it
  called \<open>wait_drop_unsub\<close>.\<close>

record listened =
  mint_after :: "PublicKey option"
  unsubscribed :: bool

definition MintTo :: string where
  "MintTo = ''Program log: Instruction: MintTo''"

text \<open>Lines 116-118 of part_000 (153-155 of bot.ts).\<close>

definition confirm :: "account_key list \<Rightarrow> PublicKey option \<Rightarrow> listened" where
  "confirm accountKeys mnt =
     (let signers = filter signer accountKeys
      in \<lparr>mint_after = mnt,
          unsubscribed =
            (case mnt of
               None \<Rightarrow> False
             | Some k \<Rightarrow> list_ex (\<lambda>a. pubkey a = k) signers)\<rparr>)"

text \<open>The listener of part_000. An exception in the \<open>try\<close> block is caught and logged.\<close>

definition wait_drop_sub ::
  "library \<Rightarrow> string \<Rightarrow> string \<Rightarrow> notification \<Rightarrow> PublicKey option \<Rightarrow> listened" where
  "wait_drop_sub lib name ticker n mnt =
     (let skip = \<lparr>mint_after = mnt, unsubscribed = False\<rparr>
      in if err n then skip
         else
           (case logs n of
              None \<Rightarrow> skip
            | Some ls \<Rightarrow>
                if MintTo \<notin> set ls then skip
                else
                  (case getParsedTransaction n of
                     Throws \<Rightarrow> skip
                   | Returns None \<Rightarrow> skip
                   | Returns (Some tx) \<Rightarrow>
                      (case (meta tx, message tx) of
                         (Some mt, Some accountKeys) \<Rightarrow>
                           (case (postTokenBalances mt, innerInstructions mt) of
                              (Some ptb, Some inner_instructions) \<Rightarrow>
                                (case for_each
                                        (for_each (scan_instruction lib name ticker ptb))
                                        inner_instructions mnt of
                                   Inl thrown \<Rightarrow> \<lparr>mint_after = thrown, unsubscribed = False\<rparr>
                                 | Inr mnt' \<Rightarrow> confirm accountKeys mnt')
                            | _ \<Rightarrow> skip)
                       | _ \<Rightarrow> skip))))"

text \<open>The listener of bot.ts.\<close>

definition wait_drop_sub_bot ::
  "library \<Rightarrow> string \<Rightarrow> string \<Rightarrow> notification \<Rightarrow> PublicKey option \<Rightarrow> listened" where
  "wait_drop_sub_bot lib name ticker n mnt =
     (let skip = \<lparr>mint_after = mnt, unsubscribed = False\<rparr>
      in if err n then skip
         else
           (case logs n of
              None \<Rightarrow> skip
            | Some ls \<Rightarrow>
                if MintTo \<notin> set ls then skip
                else
                  (case getParsedTransaction n of
                     Throws \<Rightarrow> skip
                   | Returns None \<Rightarrow> skip
                   | Returns (Some tx) \<Rightarrow>
                      (case (meta tx, message tx) of
                         (Some mt, Some accountKeys) \<Rightarrow>
                           (case innerInstructions mt of
                              Some inner_instructions \<Rightarrow>
                                (case for_each
                                        (for_each (scan_instruction_bot lib name ticker))
                                        inner_instructions mnt of
                                   Inl thrown \<Rightarrow> \<lparr>mint_after = thrown, unsubscribed = False\<rparr>
                                 | Inr mnt' \<Rightarrow> confirm accountKeys mnt')
                            | None \<Rightarrow> skip)
                       | _ \<Rightarrow> skip))))"

text \<open>The condition of line 107 (149 of bot.ts) on an instruction that the scan does not
  skip: it is of the Metaplex program, it decodes with a positive number of bytes, the
  decoded name is the target name and the decoded symbol string_includes the target ticker.\<close>

definition name_and_symbol_match :: "library \<Rightarrow> string \<Rightarrow> string \<Rightarrow> instruction \<Rightarrow> bool" where
  "name_and_symbol_match lib name ticker ins =
     (programId ins = metaplexProgramID lib
      \<and> (case decode_metaplex_instr lib (data ins) of
            None \<Rightarrow> False
          | Some d \<Rightarrow> 0 < bytes_read d \<and> data_name d = name \<and> string_includes (data_symbol d) ticker))"

text \<open>The instructions and the signers that the listener gets to see, if any.\<close>

definition seen_instructions :: "notification \<Rightarrow> instruction list" where
  "seen_instructions n =
     (case getParsedTransaction n of
        Returns (Some tx) \<Rightarrow>
          (case meta tx of
             Some mt \<Rightarrow> (case innerInstructions mt of Some inner \<Rightarrow> concat inner | None \<Rightarrow> [])
           | None \<Rightarrow> [])
      | _ \<Rightarrow> [])"

definition seen_signers :: "notification \<Rightarrow> PublicKey list" where
  "seen_signers n =
     (case getParsedTransaction n of
        Returns (Some tx) \<Rightarrow>
          (case message tx of
             Some accountKeys \<Rightarrow> map pubkey (filter signer accountKeys)
           | None \<Rightarrow> [])
      | _ \<Rightarrow> [])"

subsection \<open>Example inputs\<close>

text \<open>A configuration, an asset below the exit threshold, and environments in which a
  draw returns its mean and no message arrives.\<close>

definition cfg_example :: WorkerConfig where
  "cfg_example =
     \<lparr>worker_id = 1,
      inputs = \<lparr>start_buy = 1, mcap_threshold = 50000, spend_limit = 1, buy_interval = 30\<rparr>\<rparr>"

definition meta_example :: TokenMeta where
  "meta_example = \<lparr>mint = ''M'', symbol = ''FOO'', usd_market_cap = 1000, raydium_pool = None\<rparr>"

definition env_bought :: env where
  "env_bought =
     \<lparr>rand_buy = (\<lambda>mean std. mean), buy_token_result = Some ''sig'', during_buy_token = [],
      balance_change_result = Some 1000, during_balance_change = [],
      rand_sleep = (\<lambda>mean std. mean), during_sleep = []\<rparr>"

definition env_failed :: env where
  "env_failed = env_bought\<lparr>buy_token_result := None\<rparr>"

definition sell_env_example :: sell_env where
  "sell_env_example =
     \<lparr>PublicKey_valid = (\<lambda>k. True), token_balance_result = Returns (Some 5),
      during_token_balance = [], sell_token_result = Returns ''sold'', during_sell_token = []\<rparr>"

text \<open>A worker that has its asset and has just been told to buy.\<close>

definition active_example :: worker_state where
  "active_example = initial_state\<lparr>MINT_METADATA := Some meta_example, CURRENT_BUY_AMOUNT := 1\<rparr>"

text \<open>The same worker after its buy size has been halved twice.\<close>

definition decayed_example :: worker_state where
  "decayed_example = active_example\<lparr>CURRENT_BUY_AMOUNT := 1 / 4\<rparr>"

text \<open>The same worker in its first pacing sleep.\<close>

definition sleeping_example :: worker_state where
  "sleeping_example = active_example\<lparr>CANCEL_SLEEP := Some 0, sleeps := [(Armed, Pending)]\<rparr>"

text \<open>The same worker when the valuation has passed the exit threshold.\<close>

definition risen_example :: worker_state where
  "risen_example = active_example\<lparr>MINT_METADATA := Some (meta_example\<lparr>usd_market_cap := 60000\<rparr>)\<rparr>"

text \<open>A worker whose asset has a secondary-market pool, with the sale triggered.\<close>

definition pool_example :: worker_state where
  "pool_example =
     active_example\<lparr>MINT_METADATA := Some (meta_example\<lparr>raydium_pool := Some ''pool''\<rparr>),
                    START_SELL := True\<rparr>"

text \<open>
  The same worker after a first sleep that ran out, then waiting for \<open>trade.buy_token\<close>
  in its next cycle, and then stopped while it waits.
\<close>

definition slept_example :: worker_state where
  "slept_example = active_example\<lparr>CANCEL_SLEEP := Some 0, sleeps := [(Fired, Resolved)]\<rparr>"

definition buying_example :: worker_state where
  "buying_example = call (Buy_token 1) (push Buying_the_token slept_example)"

definition stopped_example :: worker_state where
  "stopped_example = state_of (on_message Stop buying_example)"

text \<open>The sleeping worker after a \<open>sell\<close> command.\<close>

definition selling_example :: worker_state where
  "selling_example = state_of (on_message Sell sleeping_example)"

text \<open>A configuration of the main thread that asks for three workers.\<close>

definition bot_example :: BotConfig where
  "bot_example = \<lparr>thread_cnt = 3, token_name = ''Foo'', token_ticker = ''FOO''\<rparr>"

text \<open>
  Libraries that decode every instruction to the name \<open>Foo\<close> and the symbol \<open>$FOO\<close>; a
  creation of the asset \<open>M\<close> that \<open>M\<close> signs; the same creation with \<open>M\<close> not among the
  signers; and a later transaction of the watched program that \<open>M\<close> signs and that has
  no inner instruction at all.
\<close>

definition library_example :: library where
  "library_example =
     \<lparr>decode_metaplex_instr = (\<lambda>d. Some \<lparr>data_name = ''Foo'', data_symbol = ''$FOO'', bytes_read = 10\<rparr>),
      new_PublicKey = Some,
      metaplexProgramID = ''meta''\<rparr>"

definition creation_example :: "bool \<Rightarrow> notification" where
  "creation_example signed =
     \<lparr>err = False, logs = Some [MintTo],
      getParsedTransaction = Returns (Some
        \<lparr>meta = Some \<lparr>innerInstructions =
                        Some [[\<lparr>programId = ''meta'', data = ''d'', accounts = [''A'', ''M'']\<rparr>]],
                      postTokenBalances = Some [''M'']\<rparr>,
         message = Some [\<lparr>pubkey = ''payer'', signer = True\<rparr>, \<lparr>pubkey = ''M'', signer = signed\<rparr>]\<rparr>)\<rparr>"

definition unrelated_example :: notification where
  "unrelated_example =
     \<lparr>err = False, logs = Some [MintTo],
      getParsedTransaction = Returns (Some
        \<lparr>meta = Some \<lparr>innerInstructions = Some [], postTokenBalances = Some []\<rparr>,
         message = Some [\<lparr>pubkey = ''M'', signer = True\<rparr>]\<rparr>)\<rparr>"

section \<open>Properties of the worker\<close>

subsection \<open>What the message handler leaves alone\<close>

lemma state_of_simps [simp]:
  "state_of (Inl (f, s)) = s" "state_of (Inr s) = s"
  by (simp_all add: state_of_def)

lemma on_message_keeps:
  "calls (state_of (on_message c s)) = calls s"
  "CURRENT_SPENDINGS (state_of (on_message c s)) = CURRENT_SPENDINGS s"
  "CURRENT_BUY_AMOUNT (state_of (on_message c s)) = CURRENT_BUY_AMOUNT s"
  "IS_SECOND_BUY (state_of (on_message c s)) = IS_SECOND_BUY s"
  "CANCEL_SLEEP (state_of (on_message c s)) = CANCEL_SLEEP s"
  "MESSAGE_BUFFER (state_of (on_message c s)) = MESSAGE_BUFFER s"
  by (cases c; simp add: call_CANCEL_SLEEP_def cancel_def resolve_def
      clearTimeout_def postMessage_def split: option.splits)+

lemma deliver_preserves:
  assumes "\<And>c s. f (state_of (on_message c s)) = f s"
  shows "f (state_of (deliver cs s)) = f s"
proof (induction cs arbitrary: s)
  case Nil
  show ?case by simp
next
  case (Cons c cs)
  show ?case
  proof (cases "on_message c s")
    case (Inl x)
    then have "state_of (deliver (c # cs) s) = state_of (on_message c s)" by simp
    then show ?thesis by (simp add: assms)
  next
    case (Inr s')
    then have "f (state_of (deliver (c # cs) s)) = f s'" by (simp add: Cons.IH)
    also have "f s' = f (state_of (on_message c s))" using Inr by simp
    finally show ?thesis by (simp add: assms)
  qed
qed

lemmas deliver_keeps =
  deliver_preserves [of calls, OF on_message_keeps(1)]
  deliver_preserves [of CURRENT_SPENDINGS, OF on_message_keeps(2)]
  deliver_preserves [of CURRENT_BUY_AMOUNT, OF on_message_keeps(3)]
  deliver_preserves [of IS_SECOND_BUY, OF on_message_keeps(4)]
  deliver_preserves [of CANCEL_SLEEP, OF on_message_keeps(5)]
  deliver_preserves [of MESSAGE_BUFFER, OF on_message_keeps(6)]


lemma deliver_Inr_keeps:
  assumes "deliver cs s = Inr s'"
  shows "calls s' = calls s" "CURRENT_SPENDINGS s' = CURRENT_SPENDINGS s"
    "CURRENT_BUY_AMOUNT s' = CURRENT_BUY_AMOUNT s" "IS_SECOND_BUY s' = IS_SECOND_BUY s"
    "CANCEL_SLEEP s' = CANCEL_SLEEP s" "MESSAGE_BUFFER s' = MESSAGE_BUFFER s"
  using deliver_keeps [of cs s] assms by simp_all

lemma deliver_Inl_keeps:
  assumes "deliver cs s = Inl (f, s')"
  shows "calls s' = calls s" "CURRENT_SPENDINGS s' = CURRENT_SPENDINGS s"
    "CURRENT_BUY_AMOUNT s' = CURRENT_BUY_AMOUNT s" "IS_SECOND_BUY s' = IS_SECOND_BUY s"
    "CANCEL_SLEEP s' = CANCEL_SLEEP s" "MESSAGE_BUFFER s' = MESSAGE_BUFFER s"
  using deliver_keeps [of cs s] assms by simp_all


lemma timeout_fires_keeps:
  "calls (timeout_fires k s) = calls s"
  "CURRENT_SPENDINGS (timeout_fires k s) = CURRENT_SPENDINGS s"
  "CURRENT_BUY_AMOUNT (timeout_fires k s) = CURRENT_BUY_AMOUNT s"
  "IS_SECOND_BUY (timeout_fires k s) = IS_SECOND_BUY s"
  "CANCEL_SLEEP (timeout_fires k s) = CANCEL_SLEEP s"
  by (simp_all add: timeout_fires_def resolve_def)

lemma await_preserves:
  assumes "\<And>c s. f (state_of (on_message c s)) = f s"
    and "\<And>k s. f (timeout_fires k s) = f s"
  shows "f (state_of (await_promise k cs s)) = f s"
proof (induction cs arbitrary: s)
  case Nil
  show ?case by (simp add: assms(2))
next
  case (Cons c cs)
  show ?case
  proof (cases "on_message c s")
    case (Inl x)
    then have "state_of (await_promise k (c # cs) s) = state_of (on_message c s)" by simp
    then show ?thesis by (simp add: assms(1))
  next
    case (Inr s')
    then have "f (state_of (await_promise k (c # cs) s)) = f s'" by (simp add: Cons.IH)
    also have "f s' = f (state_of (on_message c s))" using Inr by simp
    finally show ?thesis by (simp add: assms(1))
  qed
qed

lemmas await_keeps =
  await_preserves [of calls, OF on_message_keeps(1) timeout_fires_keeps(1)]
  await_preserves [of CURRENT_SPENDINGS, OF on_message_keeps(2) timeout_fires_keeps(2)]
  await_preserves [of CURRENT_BUY_AMOUNT, OF on_message_keeps(3) timeout_fires_keeps(3)]
  await_preserves [of IS_SECOND_BUY, OF on_message_keeps(4) timeout_fires_keeps(4)]
  await_preserves [of CANCEL_SLEEP, OF on_message_keeps(5) timeout_fires_keeps(5)]

lemma step_state_simps [simp]:
  "step_state (Break s) = s" "step_state (Continue s) = s" "step_state (Crash f s) = s"
  by (simp_all add: step_state_def)

lemma run_state_simps [simp]:
  "run_state (Running s) = s" "run_state (Exited s) = s" "run_state (Crashed f s) = s"
  by (simp_all add: run_state_def)



lemma deliver_InrD: "deliver cs s = Inr s' \<Longrightarrow> s' = state_of (deliver cs s)"
  by simp

lemma deliver_InlD: "deliver cs s = Inl (f, s') \<Longrightarrow> s' = state_of (deliver cs s)"
  by simp

lemma await_InrD: "await_promise k cs s = Inr s' \<Longrightarrow> s' = state_of (await_promise k cs s)"
  by simp

lemma await_InlD: "await_promise k cs s = Inl (f, s') \<Longrightarrow> s' = state_of (await_promise k cs s)"
  by simp

lemma pace_keeps:
  "calls (step_state (pace cfg e s)) = calls s"
  "CURRENT_SPENDINGS (step_state (pace cfg e s)) = CURRENT_SPENDINGS s"
  "CURRENT_BUY_AMOUNT (step_state (pace cfg e s)) = CURRENT_BUY_AMOUNT s"
  "IS_SECOND_BUY (step_state (pace cfg e s)) = IS_SECOND_BUY s"
  by (auto simp: pace_def Let_def sleep_def await_keeps push_def postMessage_def
      split: sum.splits dest!: await_InrD await_InlD)

lemma buy_buys:
  "buys (state_of (buy cfg e s)) =
     buys s @ [Buy_token (rand_buy e (start_buy (inputs cfg)) (CURRENT_BUY_AMOUNT s * (1 / 10)))]"
  by (auto simp: buy_def Let_def buys_def call_def push_def deliver_keeps
      split: sum.splits option.splits dest!: deliver_InrD deliver_InlD)

lemma buy_failed:
  assumes "buy_token_result e = None"
  shows "CURRENT_SPENDINGS (state_of (buy cfg e s)) = CURRENT_SPENDINGS s"
    "IS_SECOND_BUY (state_of (buy cfg e s)) = IS_SECOND_BUY s"
    "CURRENT_BUY_AMOUNT (state_of (buy cfg e s)) = CURRENT_BUY_AMOUNT s"
  using assms
  by (auto simp: buy_def Let_def call_def push_def deliver_keeps
      split: sum.splits option.splits dest!: deliver_InrD deliver_InlD)

lemma buy_succeeded:
  assumes "buy_token_result e = Some sg" "buy cfg e s = Inr s'"
  shows "IS_SECOND_BUY s' = (\<not> IS_SECOND_BUY s)"
    "CURRENT_BUY_AMOUNT s' = (if IS_SECOND_BUY s then CURRENT_BUY_AMOUNT s / 2 else CURRENT_BUY_AMOUNT s)"
    "CURRENT_SPENDINGS s' = CURRENT_SPENDINGS s +
       (case balance_change_result e of
          None \<Rightarrow> rand_buy e (start_buy (inputs cfg)) (CURRENT_BUY_AMOUNT s * (1 / 10))
        | Some b \<Rightarrow> b)"
  using assms
  by (auto simp: buy_def Let_def call_def push_def deliver_keeps
      split: sum.splits option.splits if_splits dest!: deliver_InrD deliver_InlD)

lemma buy_amount_le:
  assumes "0 \<le> CURRENT_BUY_AMOUNT s"
  shows "CURRENT_BUY_AMOUNT (state_of (buy cfg e s)) \<le> CURRENT_BUY_AMOUNT s"
    "0 \<le> CURRENT_BUY_AMOUNT (state_of (buy cfg e s))"
  using assms
  by (auto simp: buy_def Let_def call_def push_def deliver_keeps
      split: sum.splits option.splits if_splits dest!: deliver_InrD deliver_InlD)


lemma cycle_state:
  "step_state (cycle cfg e s) =
     (case MINT_METADATA s of
        Some m \<Rightarrow>
          if mcap_threshold (inputs cfg) \<le> usd_market_cap m
          then (push Market_cap_threshold_reached s)\<lparr>START_SELL := True\<rparr>
          else if CURRENT_SPENDINGS s < spend_limit (inputs cfg) * LAMPORTS_PER_SOL
                  \<and> CURRENT_BUY_AMOUNT s > MIN_BUY_THRESHOLD
          then (case buy cfg e s of
                  Inl f \<Rightarrow> snd f
                | Inr s1 \<Rightarrow> step_state (pace cfg e s1))
          else step_state (pace cfg e (push Spend_limit_reached s))
      | None \<Rightarrow> step_state (pace cfg e (push Mint_metadata_not_available s)))"
  by (simp add: cycle_def split: option.splits sum.splits)

lemma buy_branch:
  "calls (case buy cfg e s of Inl f \<Rightarrow> snd f | Inr s1 \<Rightarrow> step_state (pace cfg e s1))
     = calls (state_of (buy cfg e s))"
  "CURRENT_BUY_AMOUNT (case buy cfg e s of Inl f \<Rightarrow> snd f | Inr s1 \<Rightarrow> step_state (pace cfg e s1))
     = CURRENT_BUY_AMOUNT (state_of (buy cfg e s))"
  by (simp_all add: pace_keeps state_of_def split: sum.splits)

lemma cycle_skips:
  assumes "\<not> (CURRENT_SPENDINGS s < spend_limit (inputs cfg) * LAMPORTS_PER_SOL
              \<and> CURRENT_BUY_AMOUNT s > MIN_BUY_THRESHOLD)"
  shows "calls (step_state (cycle cfg e s)) = calls s"
    "CURRENT_BUY_AMOUNT (step_state (cycle cfg e s)) = CURRENT_BUY_AMOUNT s"
  using assms by (auto simp: cycle_state pace_keeps push_def split: option.splits)

lemma cycle_buys:
  assumes "MINT_METADATA s = Some m" "usd_market_cap m < mcap_threshold (inputs cfg)"
    "CURRENT_SPENDINGS s < spend_limit (inputs cfg) * LAMPORTS_PER_SOL"
    "CURRENT_BUY_AMOUNT s > MIN_BUY_THRESHOLD"
  shows "buys (step_state (cycle cfg e s)) =
     buys s @ [Buy_token (rand_buy e (start_buy (inputs cfg)) (CURRENT_BUY_AMOUNT s * (1 / 10)))]"
proof -
  have "calls (step_state (cycle cfg e s)) = calls (state_of (buy cfg e s))"
    using assms by (simp add: cycle_state buy_branch)
  then have "buys (step_state (cycle cfg e s)) = buys (state_of (buy cfg e s))"
    by (simp add: buys_def)
  then show ?thesis by (simp add: buy_buys)
qed

lemma cycle_amount_le:
  "CURRENT_BUY_AMOUNT (step_state (cycle cfg e s)) \<le> CURRENT_BUY_AMOUNT s"
proof (cases "CURRENT_BUY_AMOUNT s > MIN_BUY_THRESHOLD")
  case True
  then have "0 \<le> CURRENT_BUY_AMOUNT s" by (simp add: MIN_BUY_THRESHOLD_def)
  then have "CURRENT_BUY_AMOUNT (state_of (buy cfg e s)) \<le> CURRENT_BUY_AMOUNT s"
    by (rule buy_amount_le)
  then show ?thesis
    by (simp add: cycle_state buy_branch pace_keeps push_def split: option.splits)
next
  case False
  then show ?thesis by (simp add: cycle_skips)
qed

lemma while_loop_amount_le:
  "CURRENT_BUY_AMOUNT (run_state (while_loop cfg es s)) \<le> CURRENT_BUY_AMOUNT s"
proof (induction es arbitrary: s)
  case Nil
  show ?case by simp
next
  case (Cons e es)
  have c: "CURRENT_BUY_AMOUNT (step_state (cycle cfg e s)) \<le> CURRENT_BUY_AMOUNT s"
    by (rule cycle_amount_le)
  show ?case
  proof (cases "cycle cfg e s")
    case (Continue s')
    with c have "CURRENT_BUY_AMOUNT s' \<le> CURRENT_BUY_AMOUNT s" by simp
    moreover have "CURRENT_BUY_AMOUNT (run_state (while_loop cfg es s')) \<le> CURRENT_BUY_AMOUNT s'"
      by (rule Cons.IH)
    ultimately show ?thesis using Continue by simp
  qed (use c in auto)
qed

lemma while_loop_below_floor:
  assumes "CURRENT_BUY_AMOUNT s \<le> MIN_BUY_THRESHOLD"
  shows "calls (run_state (while_loop cfg es s)) = calls s"
  using assms
proof (induction es arbitrary: s)
  case Nil
  show ?case by simp
next
  case (Cons e es)
  have c: "calls (step_state (cycle cfg e s)) = calls s"
    "CURRENT_BUY_AMOUNT (step_state (cycle cfg e s)) = CURRENT_BUY_AMOUNT s"
    using Cons.prems by (simp_all add: cycle_skips)
  show ?case
  proof (cases "cycle cfg e s")
    case (Continue s')
    with c Cons.prems have "CURRENT_BUY_AMOUNT s' \<le> MIN_BUY_THRESHOLD" "calls s' = calls s" by simp_all
    then show ?thesis using Continue Cons.IH [of s'] by simp
  qed (use c in auto)
qed


lemma sell_balance_calls:
  "calls (state_of (sell_balance se u s)) =
     calls s @
       (case u of
          None \<Rightarrow> []
        | Some b \<Rightarrow>
            if b = 0 then []
            else (case MINT_METADATA s of
                    None \<Rightarrow> []
                  | Some m1 \<Rightarrow> (case raydium_pool m1 of None \<Rightarrow> [Sell_token b] | Some p \<Rightarrow> [])))"
  by (auto simp: sell_balance_def call_def push_def deliver_keeps
      split: sum.splits option.splits ret.splits dest!: deliver_InrD deliver_InlD)

lemma sell_calls:
  "buys (state_of (sell se s)) = buys s"
  "length (sells (state_of (sell se s))) \<le> length (sells s) + 1"
  by (auto simp: sell_def Let_def buys_def sells_def call_def push_def deliver_keeps
      sell_balance_calls
      split: sum.splits option.splits ret.splits dest!: deliver_InrD deliver_InlD)


lemma control_loop_calls:
  "calls (run_state (control_loop cfg es se s)) =
     (case while_loop cfg es s of
        Exited s1 \<Rightarrow> if START_SELL s1 then calls (state_of (sell se s1)) else calls s1
      | r \<Rightarrow> calls (run_state r))"
  by (simp add: control_loop_def postMessage_def state_of_def split: run.splits sum.splits)

lemma control_loop_buys:
  "buys (run_state (control_loop cfg es se s)) = buys (run_state (while_loop cfg es s))"
proof -
  have "buys (run_state (control_loop cfg es se s)) =
     (case while_loop cfg es s of
        Exited s1 \<Rightarrow> if START_SELL s1 then buys (state_of (sell se s1)) else buys s1
      | r \<Rightarrow> buys (run_state r))"
    by (simp add: buys_def control_loop_calls split: run.splits)
  then show ?thesis by (simp add: sell_calls(1) split: run.splits)
qed

lemma control_loop_sells:
  "length (sells (run_state (control_loop cfg es se s)))
     \<le> length (sells (run_state (while_loop cfg es s))) + 1"
proof -
  have "sells (run_state (control_loop cfg es se s)) =
     (case while_loop cfg es s of
        Exited s1 \<Rightarrow> if START_SELL s1 then sells (state_of (sell se s1)) else sells s1
      | r \<Rightarrow> sells (run_state r))"
    by (simp add: sells_def control_loop_calls split: run.splits)
  then show ?thesis using sell_calls(2) by (simp split: run.splits)
qed

lemma control_loop_ends:
  "while_loop cfg es s = Exited s1 \<Longrightarrow>
     (\<exists>s2. control_loop cfg es se s = Exited s2) \<or> (\<exists>f s2. control_loop cfg es se s = Crashed f s2)"
  by (simp add: control_loop_def split: sum.splits)

lemma buy_attempts_law:
  "buy_attempts cfg bs s = Inr s' \<Longrightarrow>
     CURRENT_BUY_AMOUNT s' =
       CURRENT_BUY_AMOUNT s /
         2 ^ ((length (filter succeeded bs) + (if IS_SECOND_BUY s then 1 else 0)) div 2)
     \<and> IS_SECOND_BUY s' = (IS_SECOND_BUY s \<noteq> odd (length (filter succeeded bs)))"
proof (induction bs arbitrary: s)
  case Nil
  then show ?case by simp
next
  case (Cons e bs)
  from Cons.prems obtain s1 where b: "buy cfg e s = Inr s1" and r: "buy_attempts cfg bs s1 = Inr s'"
    by (auto split: sum.splits)
  note ih = Cons.IH [OF r]
  show ?case
  proof (cases "buy_token_result e")
    case None
    with b buy_failed [of e cfg s] have "IS_SECOND_BUY s1 = IS_SECOND_BUY s"
      "CURRENT_BUY_AMOUNT s1 = CURRENT_BUY_AMOUNT s" by simp_all
    with ih None show ?thesis by (simp add: succeeded_def)
  next
    case (Some sg)
    from buy_succeeded [OF Some b] have "IS_SECOND_BUY s1 = (\<not> IS_SECOND_BUY s)"
      "CURRENT_BUY_AMOUNT s1 = (if IS_SECOND_BUY s then CURRENT_BUY_AMOUNT s / 2 else CURRENT_BUY_AMOUNT s)"
      by simp_all
    with ih Some show ?thesis by (auto simp: succeeded_def)
  qed
qed

lemma buy_attempts_le:
  "0 \<le> CURRENT_BUY_AMOUNT s \<Longrightarrow>
     CURRENT_BUY_AMOUNT (state_of (buy_attempts cfg bs s)) \<le> CURRENT_BUY_AMOUNT s"
proof (induction bs arbitrary: s)
  case Nil
  show ?case by simp
next
  case (Cons e bs)
  note le = buy_amount_le [OF Cons.prems, of cfg e]
  show ?case
  proof (cases "buy cfg e s")
    case (Inl f)
    with le show ?thesis by simp
  next
    case (Inr s1)
    with le have "0 \<le> CURRENT_BUY_AMOUNT s1" "CURRENT_BUY_AMOUNT s1 \<le> CURRENT_BUY_AMOUNT s"
      by simp_all
    with Cons.IH [of s1] Inr show ?thesis by simp
  qed
qed

lemma cancel_keeps_flags:
  "IS_DONE (cancel k s) = IS_DONE s" "START_SELL (cancel k s) = START_SELL s"
  by (simp_all add: cancel_def resolve_def clearTimeout_def)

lemma on_message_done:
  "IS_DONE s \<Longrightarrow> IS_DONE (state_of (on_message c s))"
  by (cases c) (simp_all add: postMessage_def)

lemma stop_sets_done:
  "IS_DONE (state_of (on_message Stop s))"
  by (simp add: call_CANCEL_SLEEP_def cancel_keeps_flags postMessage_def split: option.splits)

lemma await_mints:
  assumes "\<not> is_resolved k s"
  shows "await_promise k (map Mint ds @ cs) s =
           await_promise k cs (s\<lparr>MINT_METADATA := (if ds = [] then MINT_METADATA s else last ds)\<rparr>)"
  using assms
proof (induction ds arbitrary: s)
  case Nil
  show ?case by simp
next
  case (Cons d ds)
  have "\<not> is_resolved k (s\<lparr>MINT_METADATA := d\<rparr>)"
    using Cons.prems by (simp add: is_resolved_def)
  then show ?case using Cons.IH [of "s\<lparr>MINT_METADATA := d\<rparr>"] by simp
qed

lemmas example_defs = cfg_example_def meta_example_def env_bought_def env_failed_def
  sell_env_example_def active_example_def decayed_example_def sleeping_example_def
  risen_example_def pool_example_def slept_example_def buying_example_def
  stopped_example_def selling_example_def initial_state_def

lemmas run_defs = buy_def sell_def sell_balance_def cycle_def pace_def sleep_def cancel_def
  resolve_def clearTimeout_def timeout_fires_def is_resolved_def call_CANCEL_SLEEP_def
  push_def postMessage_def call_def control_loop_def Let_def

section \<open>Properties of the main thread\<close>

subsection \<open>The loop of start_workers\<close>

declare start_workers_loop.simps [simp del]

lemma start_workers_loop_eq:
  "start_workers_loop cfg secrets i workers =
     workers @ map (\<lambda>j. \<lparr>secret = element secrets (i + int j), wid = i + int j + 1, config = cfg\<rparr>)
                 [0..<nat (thread_cnt cfg - i)]"
proof (induction cfg secrets i workers rule: start_workers_loop.induct)
  case (1 cfg secrets i workers)
  show ?case
  proof (cases "i < thread_cnt cfg")
    case True
    then have n: "nat (thread_cnt cfg - i) = Suc (nat (thread_cnt cfg - (i + 1)))" by simp
    have "start_workers_loop cfg secrets i workers =
        start_workers_loop cfg secrets (i + 1)
          (workers @ [\<lparr>secret = element secrets i, wid = i + 1, config = cfg\<rparr>])"
      using True by (subst start_workers_loop.simps) simp
    also have "\<dots> = (workers @ [\<lparr>secret = element secrets i, wid = i + 1, config = cfg\<rparr>]) @
        map (\<lambda>j. \<lparr>secret = element secrets (i + 1 + int j), wid = i + 1 + int j + 1, config = cfg\<rparr>)
          [0..<nat (thread_cnt cfg - (i + 1))]"
      using True by (rule "1.IH")
    also have "\<dots> = workers @
        map (\<lambda>j. \<lparr>secret = element secrets (i + int j), wid = i + int j + 1, config = cfg\<rparr>)
          [0..<nat (thread_cnt cfg - i)]"
      unfolding n by (simp add: upt_conv_Cons map_Suc_upt [symmetric] del: upt_Suc add: algebra_simps)
    finally show ?thesis .
  next
    case False
    then show ?thesis by (subst start_workers_loop.simps) simp
  qed
qed

lemma element_take:
  "n \<le> length xs \<Longrightarrow> map (\<lambda>j. element xs (int j)) [0..<n] = map Some (take n xs)"
  by (rule nth_equalityI) (simp_all add: element_def)

subsection \<open>The listener changes its candidate only on a match\<close>

lemma after_simps [simp]: "after (Inl s) = s" "after (Inr s) = s"
  by (simp_all add: after_def)

lemma for_each_changes:
  assumes "\<And>x s. x \<in> set xs \<Longrightarrow> after (body x s) \<noteq> s \<Longrightarrow> P x"
    and "after (for_each body xs s) \<noteq> s"
  shows "\<exists>x\<in>set xs. P x"
  using assms
proof (induction xs arbitrary: s)
  case Nil
  then show ?case by simp
next
  case (Cons x xs)
  show ?case
  proof (cases "after (body x s) = s")
    case False
    then have "P x" using Cons.prems(1) by simp
    then show ?thesis by simp
  next
    case True
    show ?thesis
    proof (cases "body x s")
      case (Inl s')
      with True Cons.prems(2) show ?thesis by simp
    next
      case (Inr s')
      with True have "s' = s" by simp
      with Inr Cons.prems(2) have "after (for_each body xs s) \<noteq> s" by simp
      moreover have "\<And>y t. y \<in> set xs \<Longrightarrow> after (body y t) \<noteq> t \<Longrightarrow> P y"
        using Cons.prems(1) by simp
      ultimately have "\<exists>y\<in>set xs. P y" by (rule Cons.IH [rotated])
      then show ?thesis by simp
    qed
  qed
qed

lemma scan_instruction_changes:
  "after (scan_instruction lib nm tk ptb ins mnt) \<noteq> mnt \<Longrightarrow> name_and_symbol_match lib nm tk ins"
  by (auto simp: scan_instruction_def name_and_symbol_match_def
      split: if_splits option.splits list.splits)

lemma scan_instruction_bot_changes:
  "after (scan_instruction_bot lib nm tk ins mnt) \<noteq> mnt \<Longrightarrow> name_and_symbol_match lib nm tk ins"
  by (auto simp: scan_instruction_bot_def name_and_symbol_match_def
      split: if_splits option.splits list.splits)

lemma scan_all_changes:
  assumes "\<And>ins mnt. after (body ins mnt) \<noteq> mnt \<Longrightarrow> name_and_symbol_match lib nm tk ins"
    and "after (for_each (for_each body) inner mnt) \<noteq> mnt"
  shows "\<exists>ins\<in>set (concat inner). name_and_symbol_match lib nm tk ins"
proof -
  have "\<exists>g\<in>set inner. \<exists>ins\<in>set g. name_and_symbol_match lib nm tk ins"
  proof (rule for_each_changes [where body = "for_each body" and s = mnt])
    fix g s
    assume "after (for_each body g s) \<noteq> s"
    then show "\<exists>ins\<in>set g. name_and_symbol_match lib nm tk ins"
      using assms(1) by (rule for_each_changes [rotated])
  next
    show "after (for_each (for_each body) inner mnt) \<noteq> mnt" by (rule assms(2))
  qed
  then show ?thesis by auto
qed

lemma confirm_signer:
  "unsubscribed (confirm keys mnt) \<Longrightarrow>
     \<exists>k. mint_after (confirm keys mnt) = Some k \<and> k \<in> set (map pubkey (filter signer keys))"
  by (auto simp: confirm_def Let_def list_ex_iff split: option.splits)

lemma wait_drop_sub_signer:
  "unsubscribed (wait_drop_sub lib nm tk n mnt) \<Longrightarrow>
     \<exists>k. mint_after (wait_drop_sub lib nm tk n mnt) = Some k \<and> k \<in> set (seen_signers n)"
  using confirm_signer
  by (auto simp: wait_drop_sub_def seen_signers_def Let_def
      split: if_splits option.splits ret.splits sum.splits)

lemma wait_drop_sub_bot_signer:
  "unsubscribed (wait_drop_sub_bot lib nm tk n mnt) \<Longrightarrow>
     \<exists>k. mint_after (wait_drop_sub_bot lib nm tk n mnt) = Some k \<and> k \<in> set (seen_signers n)"
  using confirm_signer
  by (auto simp: wait_drop_sub_bot_def seen_signers_def Let_def
      split: if_splits option.splits ret.splits sum.splits)

lemma wait_drop_sub_candidate:
  assumes "mint_after (wait_drop_sub lib nm tk n mnt) \<noteq> mnt"
  shows "\<exists>ins\<in>set (seen_instructions n). name_and_symbol_match lib nm tk ins"
proof -
  from assms obtain tx mt keys ptb inner where
    tx: "getParsedTransaction n = Returns (Some tx)" "meta tx = Some mt"
      "innerInstructions mt = Some inner" "postTokenBalances mt = Some ptb"
    and ch: "after (for_each (for_each (scan_instruction lib nm tk ptb)) inner mnt) \<noteq> mnt"
    by (auto simp: wait_drop_sub_def Let_def confirm_def
        split: if_splits option.splits ret.splits sum.splits)
  have "\<exists>ins\<in>set (concat inner). name_and_symbol_match lib nm tk ins"
    by (rule scan_all_changes [where body = "scan_instruction lib nm tk ptb", OF scan_instruction_changes ch])
  then show ?thesis using tx by (simp add: seen_instructions_def)
qed

lemma wait_drop_sub_bot_candidate:
  assumes "mint_after (wait_drop_sub_bot lib nm tk n mnt) \<noteq> mnt"
  shows "\<exists>ins\<in>set (seen_instructions n). name_and_symbol_match lib nm tk ins"
proof -
  from assms obtain tx mt keys inner where
    tx: "getParsedTransaction n = Returns (Some tx)" "meta tx = Some mt"
      "innerInstructions mt = Some inner"
    and ch: "after (for_each (for_each (scan_instruction_bot lib nm tk)) inner mnt) \<noteq> mnt"
    by (auto simp: wait_drop_sub_bot_def Let_def confirm_def
        split: if_splits option.splits ret.splits sum.splits)
  have "\<exists>ins\<in>set (concat inner). name_and_symbol_match lib nm tk ins"
    by (rule scan_all_changes [where body = "scan_instruction_bot lib nm tk", OF scan_instruction_bot_changes ch])
  then show ?thesis using tx by (simp add: seen_instructions_def)
qed

text \<open>
  What both listeners guarantee when they call \<open>wait_drop_unsub\<close>: the identifier they
  hold signs the transaction, and either an instruction of the transaction matched the
  target name and symbol or the identifier is the one held before the transaction.
\<close>

lemma wait_drop_sub_confirms:
  assumes "unsubscribed (wait_drop_sub lib nm tk n mnt)"
  shows "\<exists>k. mint_after (wait_drop_sub lib nm tk n mnt) = Some k \<and> k \<in> set (seen_signers n)
           \<and> (mnt = Some k \<or> (\<exists>ins\<in>set (seen_instructions n). name_and_symbol_match lib nm tk ins))"
proof -
  from wait_drop_sub_signer [OF assms] obtain k where
    k: "mint_after (wait_drop_sub lib nm tk n mnt) = Some k" "k \<in> set (seen_signers n)"
    by blast
  show ?thesis
  proof (cases "mnt = Some k")
    case True
    with k show ?thesis by simp
  next
    case False
    with k have "mint_after (wait_drop_sub lib nm tk n mnt) \<noteq> mnt" by simp
    from wait_drop_sub_candidate [OF this] k show ?thesis by simp
  qed
qed

lemma wait_drop_sub_bot_confirms:
  assumes "unsubscribed (wait_drop_sub_bot lib nm tk n mnt)"
  shows "\<exists>k. mint_after (wait_drop_sub_bot lib nm tk n mnt) = Some k \<and> k \<in> set (seen_signers n)
           \<and> (mnt = Some k \<or> (\<exists>ins\<in>set (seen_instructions n). name_and_symbol_match lib nm tk ins))"
proof -
  from wait_drop_sub_bot_signer [OF assms] obtain k where
    k: "mint_after (wait_drop_sub_bot lib nm tk n mnt) = Some k" "k \<in> set (seen_signers n)"
    by blast
  show ?thesis
  proof (cases "mnt = Some k")
    case True
    with k show ?thesis by simp
  next
    case False
    with k have "mint_after (wait_drop_sub_bot lib nm tk n mnt) \<noteq> mnt" by simp
    from wait_drop_sub_bot_candidate [OF this] k show ?thesis by simp
  qed
qed

lemmas detector_defs = wait_drop_sub_def wait_drop_sub_bot_def scan_instruction_def
  scan_instruction_bot_def confirm_def seen_signers_def seen_instructions_def
  name_and_symbol_match_def element_def MintTo_def Let_def
  library_example_def creation_example_def unrelated_example_def

section \<open>The claims about the worker\<close>

text \<open>
  Claim C1. The claim says that the amount of a buy attempt is drawn around the current,
  decayed buy size, with a standard deviation of a tenth of it, and not around the
  configured initial buy size. The code passes \<open>WORKER_CONFIG.inputs.start_buy\<close> as the
  mean of the draw (line 41) and a tenth of \<open>CURRENT_BUY_AMOUNT\<close> as the standard
  deviation (line 40): for a worker whose buy size has decayed from 1 to 1/4, the order
  is \<open>r 1 (1/40)\<close> for the draw \<open>r\<close>, whatever the draw is.
\<close>

theorem C1_draw_centred_on_start_buy:
  "buys (state_of (buy cfg_example (env_bought\<lparr>rand_buy := r\<rparr>) decayed_example)) =
     [Buy_token (r (start_buy (inputs cfg_example)) (CURRENT_BUY_AMOUNT decayed_example * (1 / 10)))]
   \<and> start_buy (inputs cfg_example) = 1 \<and> CURRENT_BUY_AMOUNT decayed_example = 1 / 4"
  by (simp add: buy_buys) (simp add: example_defs buys_def)

text \<open>
  Claim C4. In a cycle of an active worker (the asset is known, its valuation below the
  exit threshold) a buy is attempted if and only if the spendings are below the spend
  limit and the buy size is above the minimum buy threshold, and then exactly one; when
  either condition fails, the cycle calls nothing of the trade module, whatever the
  state; and once the buy size is at or below the threshold, the control loop never buys
  again, whatever the spendings, the environments and the messages are.
\<close>

theorem C4_buy_gate:
  "(MINT_METADATA s = Some m \<and> usd_market_cap m < mcap_threshold (inputs cfg) \<longrightarrow>
      (buys (step_state (cycle cfg e s)) \<noteq> buys s) =
        (CURRENT_SPENDINGS s < spend_limit (inputs cfg) * LAMPORTS_PER_SOL
          \<and> CURRENT_BUY_AMOUNT s > MIN_BUY_THRESHOLD))
   \<and> (MINT_METADATA s = Some m \<and> usd_market_cap m < mcap_threshold (inputs cfg)
       \<and> CURRENT_SPENDINGS s < spend_limit (inputs cfg) * LAMPORTS_PER_SOL
       \<and> CURRENT_BUY_AMOUNT s > MIN_BUY_THRESHOLD \<longrightarrow>
      buys (step_state (cycle cfg e s)) =
        buys s @ [Buy_token (rand_buy e (start_buy (inputs cfg)) (CURRENT_BUY_AMOUNT s * (1 / 10)))])
   \<and> (\<not> (CURRENT_SPENDINGS s < spend_limit (inputs cfg) * LAMPORTS_PER_SOL
            \<and> CURRENT_BUY_AMOUNT s > MIN_BUY_THRESHOLD) \<longrightarrow>
      calls (step_state (cycle cfg e s)) = calls s)
   \<and> (CURRENT_BUY_AMOUNT s \<le> MIN_BUY_THRESHOLD \<longrightarrow>
      buys (run_state (control_loop cfg es se s)) = buys s)"
proof (intro conjI impI)
  assume a: "MINT_METADATA s = Some m \<and> usd_market_cap m < mcap_threshold (inputs cfg)"
  show "(buys (step_state (cycle cfg e s)) \<noteq> buys s) =
        (CURRENT_SPENDINGS s < spend_limit (inputs cfg) * LAMPORTS_PER_SOL
          \<and> CURRENT_BUY_AMOUNT s > MIN_BUY_THRESHOLD)"
  proof (cases "CURRENT_SPENDINGS s < spend_limit (inputs cfg) * LAMPORTS_PER_SOL
          \<and> CURRENT_BUY_AMOUNT s > MIN_BUY_THRESHOLD")
    case True
    then show ?thesis using a cycle_buys [of s m cfg e] by simp
  next
    case False
    then show ?thesis using cycle_skips(1) [of s cfg e] by (simp add: buys_def)
  qed
next
  assume "MINT_METADATA s = Some m \<and> usd_market_cap m < mcap_threshold (inputs cfg)
       \<and> CURRENT_SPENDINGS s < spend_limit (inputs cfg) * LAMPORTS_PER_SOL
       \<and> CURRENT_BUY_AMOUNT s > MIN_BUY_THRESHOLD"
  then show "buys (step_state (cycle cfg e s)) =
        buys s @ [Buy_token (rand_buy e (start_buy (inputs cfg)) (CURRENT_BUY_AMOUNT s * (1 / 10)))]"
    by (simp add: cycle_buys)
next
  assume "\<not> (CURRENT_SPENDINGS s < spend_limit (inputs cfg) * LAMPORTS_PER_SOL
            \<and> CURRENT_BUY_AMOUNT s > MIN_BUY_THRESHOLD)"
  then show "calls (step_state (cycle cfg e s)) = calls s"
    by (rule cycle_skips)
next
  assume "CURRENT_BUY_AMOUNT s \<le> MIN_BUY_THRESHOLD"
  then show "buys (run_state (control_loop cfg es se s)) = buys s"
    by (simp add: control_loop_buys) (simp add: buys_def while_loop_below_floor)
qed

theorem C4_witness:
  "MINT_METADATA active_example = Some meta_example
   \<and> usd_market_cap meta_example < mcap_threshold (inputs cfg_example)
   \<and> CURRENT_SPENDINGS active_example < spend_limit (inputs cfg_example) * LAMPORTS_PER_SOL
   \<and> CURRENT_BUY_AMOUNT active_example > MIN_BUY_THRESHOLD
   \<and> buys (step_state (cycle cfg_example env_bought active_example)) \<noteq> buys active_example
   \<and> buys (step_state (cycle cfg_example env_bought active_example)) = [Buy_token 1]
   \<and> CURRENT_BUY_AMOUNT (decayed_example\<lparr>CURRENT_BUY_AMOUNT := 0\<rparr>) \<le> MIN_BUY_THRESHOLD
   \<and> buys (run_state (control_loop cfg_example [env_bought, env_bought] sell_env_example
        (decayed_example\<lparr>CURRENT_BUY_AMOUNT := 0\<rparr>))) = []"
proof -
  have h: "MINT_METADATA active_example = Some meta_example"
    "usd_market_cap meta_example < mcap_threshold (inputs cfg_example)"
    "CURRENT_SPENDINGS active_example < spend_limit (inputs cfg_example) * LAMPORTS_PER_SOL"
    "CURRENT_BUY_AMOUNT active_example > MIN_BUY_THRESHOLD"
    "CURRENT_BUY_AMOUNT (decayed_example\<lparr>CURRENT_BUY_AMOUNT := 0\<rparr>) \<le> MIN_BUY_THRESHOLD"
    by (simp_all add: example_defs LAMPORTS_PER_SOL_def MIN_BUY_THRESHOLD_def)
  have v: "buys active_example = []" "buys (decayed_example\<lparr>CURRENT_BUY_AMOUNT := 0\<rparr>) = []"
    "rand_buy env_bought (start_buy (inputs cfg_example)) (CURRENT_BUY_AMOUNT active_example * (1 / 10)) = 1"
    by (simp_all add: example_defs buys_def)
  from h v C4_buy_gate [of active_example meta_example cfg_example env_bought]
    C4_buy_gate [of "decayed_example\<lparr>CURRENT_BUY_AMOUNT := 0\<rparr>" meta_example cfg_example env_bought
      "[env_bought, env_bought]" sell_env_example]
  show ?thesis by simp
qed

text \<open>
  Claim C5. The buy size never increases, over any run of the loop and over any
  sequence of buy attempts that starts from a buy size that is not negative (the loop
  only buys with a buy size above the threshold); after a sequence of attempts of which
  \<open>n\<close> succeeded it is the initial one halved \<open>n div 2\<close> times when the flag was
  initially unset (once more, for odd \<open>n\<close>, when it was set), and the flag has flipped
  \<open>n\<close> times. An attempt has failed when \<open>trade.buy_token\<close> throws, and has succeeded
  when it returns: a failed attempt leaves the spendings, the flag and the buy size as
  they were; a successful one adds the balance change (or the amount, when the change
  cannot be read) to the spendings, flips the flag and halves the buy size if the flag
  was set, also when the line that reports it throws (line 54, after a \<open>mint\<close> message
  without an asset) and the attempt is logged as an error.
\<close>

theorem C5_buy_size_decay:
  "CURRENT_BUY_AMOUNT (run_state (while_loop cfg es s)) \<le> CURRENT_BUY_AMOUNT s
   \<and> (0 \<le> CURRENT_BUY_AMOUNT s \<longrightarrow>
        CURRENT_BUY_AMOUNT (state_of (buy_attempts cfg bs s)) \<le> CURRENT_BUY_AMOUNT s)
   \<and> (buy_attempts cfg bs s = Inr s' \<longrightarrow>
        CURRENT_BUY_AMOUNT s' =
          CURRENT_BUY_AMOUNT s /
            2 ^ ((length (filter succeeded bs) + (if IS_SECOND_BUY s then 1 else 0)) div 2)
        \<and> IS_SECOND_BUY s' = (IS_SECOND_BUY s \<noteq> odd (length (filter succeeded bs))))
   \<and> (buy_token_result e = None \<longrightarrow>
        CURRENT_SPENDINGS (state_of (buy cfg e s)) = CURRENT_SPENDINGS s
        \<and> IS_SECOND_BUY (state_of (buy cfg e s)) = IS_SECOND_BUY s
        \<and> CURRENT_BUY_AMOUNT (state_of (buy cfg e s)) = CURRENT_BUY_AMOUNT s)
   \<and> (buy_token_result e = Some sg \<and> buy cfg e s = Inr s1 \<longrightarrow>
        CURRENT_SPENDINGS s1 = CURRENT_SPENDINGS s +
          (case balance_change_result e of
             None \<Rightarrow> rand_buy e (start_buy (inputs cfg)) (CURRENT_BUY_AMOUNT s * (1 / 10))
           | Some b \<Rightarrow> b)
        \<and> IS_SECOND_BUY s1 = (\<not> IS_SECOND_BUY s)
        \<and> CURRENT_BUY_AMOUNT s1 =
            (if IS_SECOND_BUY s then CURRENT_BUY_AMOUNT s / 2 else CURRENT_BUY_AMOUNT s))"
  using while_loop_amount_le [of cfg es s] buy_attempts_le [of s cfg bs]
    buy_attempts_law [of cfg bs s s'] buy_failed [of e cfg s] buy_succeeded [of e sg cfg s s1]
  by blast

theorem C5_witness:
  "buy_attempts cfg_example [env_bought, env_failed, env_bought, env_bought] active_example
      = Inr (state_of (buy_attempts cfg_example [env_bought, env_failed, env_bought, env_bought] active_example))
   \<and> CURRENT_BUY_AMOUNT (state_of (buy_attempts cfg_example
        [env_bought, env_failed, env_bought, env_bought] active_example)) = 1 / 2
   \<and> IS_SECOND_BUY (state_of (buy_attempts cfg_example
        [env_bought, env_failed, env_bought, env_bought] active_example))
   \<and> buy_token_result env_failed = None
   \<and> CURRENT_SPENDINGS (state_of (buy cfg_example env_failed active_example)) = 0
   \<and> buy_token_result (env_bought\<lparr>during_balance_change := [Mint None]\<rparr>) = Some ''sig''
   \<and> buy cfg_example (env_bought\<lparr>during_balance_change := [Mint None]\<rparr>) active_example
       = Inr (state_of (buy cfg_example (env_bought\<lparr>during_balance_change := [Mint None]\<rparr>)
           active_example))
   \<and> MESSAGE_BUFFER (state_of (buy cfg_example (env_bought\<lparr>during_balance_change := [Mint None]\<rparr>)
        active_example)) = [Buying_the_token, Error_buying_the_token]
   \<and> CURRENT_SPENDINGS (state_of (buy cfg_example (env_bought\<lparr>during_balance_change := [Mint None]\<rparr>)
        active_example)) = 1000
   \<and> IS_SECOND_BUY (state_of (buy cfg_example (env_bought\<lparr>during_balance_change := [Mint None]\<rparr>)
        active_example))"
proof -
  let ?e = "env_bought\<lparr>during_balance_change := [Mint None]\<rparr>"
  have h: "buy_attempts cfg_example [env_bought, env_failed, env_bought, env_bought] active_example
      = Inr (state_of (buy_attempts cfg_example [env_bought, env_failed, env_bought, env_bought] active_example))"
    "buy_token_result ?e = Some ''sig''"
    "buy cfg_example ?e active_example = Inr (state_of (buy cfg_example ?e active_example))"
    by (simp_all add: example_defs run_defs)
  have v: "length (filter succeeded [env_bought, env_failed, env_bought, env_bought]) = 3"
    "\<not> IS_SECOND_BUY active_example" "CURRENT_BUY_AMOUNT active_example = 1"
    "buy_token_result env_failed = None" "CURRENT_SPENDINGS active_example = 0"
    "balance_change_result ?e = Some 1000"
    "MESSAGE_BUFFER (state_of (buy cfg_example ?e active_example))
       = [Buying_the_token, Error_buying_the_token]"
    by (simp_all add: example_defs succeeded_def run_defs)
  from h v C5_buy_size_decay [of cfg_example "[]" active_example
      "[env_bought, env_failed, env_bought, env_bought]"
      "state_of (buy_attempts cfg_example [env_bought, env_failed, env_bought, env_bought] active_example)"
      env_failed]
    C5_buy_size_decay [of cfg_example "[]" active_example "[]" active_example ?e "''sig''"
      "state_of (buy cfg_example ?e active_example)"]
  show ?thesis by simp
qed

text \<open>
  Claim C6. When a cycle of a worker that is not done sees a valuation at or above the
  exit threshold, the loop ends in that cycle with the sale triggered; the control loop
  then ends too (it does not keep running), all that it calls of the trade module is
  what one call of \<open>sell\<close> calls, no buy is among it and at most one sell order.
\<close>

theorem C6_threshold_then_single_sell:
  assumes "\<not> IS_DONE s" and "MINT_METADATA s = Some m"
    and "mcap_threshold (inputs cfg) \<le> usd_market_cap m"
  shows "while_loop cfg (e # es) s =
           Exited ((push Market_cap_threshold_reached s)\<lparr>START_SELL := True\<rparr>)
    \<and> ((\<exists>s'. control_loop cfg (e # es) se s = Exited s')
        \<or> (\<exists>f s'. control_loop cfg (e # es) se s = Crashed f s'))
    \<and> calls (run_state (control_loop cfg (e # es) se s)) =
        calls (state_of (sell se ((push Market_cap_threshold_reached s)\<lparr>START_SELL := True\<rparr>)))
    \<and> buys (run_state (control_loop cfg (e # es) se s)) = buys s
    \<and> length (sells (run_state (control_loop cfg (e # es) se s))) \<le> length (sells s) + 1"
proof -
  let ?b = "(push Market_cap_threshold_reached s)\<lparr>START_SELL := True\<rparr>"
  have w: "while_loop cfg (e # es) s = Exited ?b"
    using assms by (simp add: cycle_def)
  have c: "calls ?b = calls s" by (simp add: push_def)
  have "buys (run_state (control_loop cfg (e # es) se s)) = buys (run_state (while_loop cfg (e # es) s))"
    by (rule control_loop_buys)
  also have "\<dots> = buys ?b" by (simp only: w run_state_simps)
  also have "\<dots> = buys s" by (simp add: buys_def c)
  finally have 1: "buys (run_state (control_loop cfg (e # es) se s)) = buys s" .
  have "length (sells (run_state (control_loop cfg (e # es) se s)))
      \<le> length (sells (run_state (while_loop cfg (e # es) s))) + 1"
    by (rule control_loop_sells)
  also have "sells (run_state (while_loop cfg (e # es) s)) = sells ?b" by (simp only: w run_state_simps)
  also have "sells ?b = sells s" by (simp add: sells_def c)
  finally have 2: "length (sells (run_state (control_loop cfg (e # es) se s))) \<le> length (sells s) + 1" .
  have "calls (run_state (control_loop cfg (e # es) se s)) =
      (if START_SELL ?b then calls (state_of (sell se ?b)) else calls ?b)"
    by (simp only: control_loop_calls w run.case)
  then have 3: "calls (run_state (control_loop cfg (e # es) se s)) = calls (state_of (sell se ?b))"
    by simp
  from control_loop_ends [OF w, of se] w 1 2 3 show ?thesis by blast
qed

theorem C6_witness:
  "\<not> IS_DONE risen_example
   \<and> MINT_METADATA risen_example = Some (meta_example\<lparr>usd_market_cap := 60000\<rparr>)
   \<and> mcap_threshold (inputs cfg_example) \<le> usd_market_cap (meta_example\<lparr>usd_market_cap := 60000\<rparr>)
   \<and> buys (run_state (control_loop cfg_example [env_bought, env_bought] sell_env_example risen_example)) = []
   \<and> calls (run_state (control_loop cfg_example [env_bought, env_bought] sell_env_example risen_example))
       = [Get_token_balance ''M'', Sell_token 5]"
proof -
  have h: "\<not> IS_DONE risen_example"
    "MINT_METADATA risen_example = Some (meta_example\<lparr>usd_market_cap := 60000\<rparr>)"
    "mcap_threshold (inputs cfg_example) \<le> usd_market_cap (meta_example\<lparr>usd_market_cap := 60000\<rparr>)"
    by (simp_all add: example_defs risen_example_def)
  have v: "buys risen_example = []"
    "calls (state_of (sell sell_env_example
        ((push Market_cap_threshold_reached risen_example)\<lparr>START_SELL := True\<rparr>)))
      = [Get_token_balance ''M'', Sell_token 5]"
    by (simp_all add: example_defs risen_example_def buys_def run_defs)
  from C6_threshold_then_single_sell [OF h, of env_bought "[env_bought]" sell_env_example] v
  show ?thesis using h by simp
qed




text \<open>
  Claim C8, as the code has it. Once \<open>IS_DONE\<close> is set, the \<open>collect\<close> and the \<open>stop\<close>
  command change nothing; once \<open>START_SELL\<close> is set, the \<open>sell\<close> command changes nothing;
  a second \<open>stop\<close> after a first changes nothing, whatever the state before the first was.
\<close>

theorem C8_no_op_when_done:
  "(IS_DONE s \<longrightarrow> on_message Collect s = Inr s \<and> on_message Stop s = Inr s)
   \<and> (START_SELL s \<longrightarrow> on_message Sell s = Inr s)
   \<and> on_message Stop (state_of (on_message Stop s)) = Inr (state_of (on_message Stop s))"
  using stop_sets_done [of s] by simp

text \<open>
  Claim C8 as stated fails for \<open>sell\<close>, which looks at \<open>START_SELL\<close> and not at \<open>IS_DONE\<close>
  (line 134): a worker that was stopped while it waits for a purchase is done, and a
  \<open>sell\<close> command that follows still posts its receipt and triggers the sale, which the
  loop then carries out.
\<close>

theorem C8_sell_counterexample:
  "IS_DONE stopped_example
   \<and> \<not> START_SELL stopped_example
   \<and> posted (state_of (on_message Sell stopped_example)) =
       posted stopped_example @ [Received_sell_command]
   \<and> START_SELL (state_of (on_message Sell stopped_example))
   \<and> sells (run_state (control_loop cfg_example [env_bought\<lparr>during_buy_token := [Stop]\<rparr>]
        sell_env_example slept_example)) = []
   \<and> sells (run_state (control_loop cfg_example [env_bought\<lparr>during_buy_token := [Stop, Sell]\<rparr>]
        sell_env_example slept_example)) = [Sell_token 5]"
  by (simp add: example_defs run_defs sells_def LAMPORTS_PER_SOL_def MIN_BUY_THRESHOLD_def)

theorem C8_witness:
  "IS_DONE stopped_example
   \<and> on_message Collect stopped_example = Inr stopped_example
   \<and> on_message Stop stopped_example = Inr stopped_example
   \<and> START_SELL selling_example
   \<and> on_message Sell selling_example = Inr selling_example"
proof -
  have h: "IS_DONE stopped_example" "START_SELL selling_example"
    by (simp_all add: example_defs run_defs)
  from C8_no_op_when_done [of stopped_example] C8_no_op_when_done [of selling_example] h
  show ?thesis by simp
qed

text \<open>
  Claim C9, as the code has it. When the pacing starts for a worker that is not done and
  the first command to arrive in the sleep, possibly after \<open>mint\<close> messages, is \<open>collect\<close>,
  the timer of the sleep is cleared and its promise resolved without the timer firing,
  the pass through the loop body ends with the worker done and nothing called of the
  trade module, and the loop exits at once, whatever fuel is left: no cycle and so no buy
  comes after it.
\<close>

theorem C9_collect_cancels_sleep:
  assumes "\<not> IS_DONE s" and "during_sleep e = map Mint ds @ Collect # rest"
  shows "\<exists>s'. pace cfg e s = Continue s'
           \<and> IS_DONE s'
           \<and> sleeps s' = sleeps s @ [(Cleared, Resolved)]
           \<and> calls s' = calls s
           \<and> (\<forall>es. while_loop cfg es s' = Exited s')"
proof -
  let ?k = "length (sleeps s)"
  let ?f = "rand_sleep e (buy_interval (inputs cfg)) 5"
  define s4 where "s4 = (postMessage (Buffer (MESSAGE_BUFFER s @ [Sleeping_for ?f])) (push (Sleeping_for ?f) s))
      \<lparr>sleeps := sleeps s @ [(Armed, Pending)], CANCEL_SLEEP := Some ?k\<rparr>"
  define s4' where "s4' = s4\<lparr>MINT_METADATA := (if ds = [] then MINT_METADATA s4 else last ds)\<rparr>"
  define s5 where "s5 = cancel ?k ((postMessage Received_collect_command s4')\<lparr>IS_DONE := True\<rparr>)"
  have f4: "CANCEL_SLEEP s4' = Some ?k" "\<not> IS_DONE s4'" "sleeps s4' = sleeps s @ [(Armed, Pending)]"
    "calls s4' = calls s"
    using assms(1) by (simp_all add: s4'_def s4_def postMessage_def push_def)
  have nr: "\<not> is_resolved ?k s4"
    by (simp add: is_resolved_def s4_def postMessage_def push_def)
  have c: "on_message Collect s4' = Inr s5"
    using f4 by (simp add: call_CANCEL_SLEEP_def s5_def postMessage_def)
  have sl: "sleeps s5 = sleeps s @ [(Cleared, Resolved)]"
    using f4 by (simp add: s5_def cancel_def resolve_def clearTimeout_def postMessage_def)
  then have r: "is_resolved ?k s5" by (simp add: is_resolved_def)
  have "await_promise ?k (during_sleep e) s4 = await_promise ?k (Collect # rest) s4'"
    unfolding assms(2) s4'_def by (rule await_mints [OF nr])
  also have "\<dots> = Inr s5" using c r by simp
  finally have a: "await_promise ?k (during_sleep e) s4 = Inr s5" .
  have p: "pace cfg e s = Continue (s5\<lparr>MESSAGE_BUFFER := []\<rparr>)"
    using assms(1) a by (simp add: pace_def Let_def sleep_def postMessage_def push_def s4_def)
  have d: "IS_DONE (s5\<lparr>MESSAGE_BUFFER := []\<rparr>)"
    by (simp add: s5_def cancel_keeps_flags)
  have w: "while_loop cfg es (s5\<lparr>MESSAGE_BUFFER := []\<rparr>) = Exited (s5\<lparr>MESSAGE_BUFFER := []\<rparr>)" for es
    using d by (cases es) simp_all
  have cl: "calls (s5\<lparr>MESSAGE_BUFFER := []\<rparr>) = calls s"
    using f4 by (simp add: s5_def cancel_def resolve_def clearTimeout_def postMessage_def)
  from p d sl w cl show ?thesis by simp
qed

text \<open>
  Claim C9 as stated fails when a \<open>sell\<close> command has arrived earlier in the same sleep:
  it sets \<open>IS_DONE\<close> without cancelling the sleep, the \<open>collect\<close> that follows is ignored
  (line 141), the timer stays armed, and the sleep ends only when the timer fires.
\<close>

theorem C9_collect_after_sell_counterexample:
  "on_message Collect selling_example = Inr selling_example
   \<and> sleeps selling_example = [(Armed, Pending)]
   \<and> sleeps (step_state (pace cfg_example (env_bought\<lparr>during_sleep := [Sell, Collect]\<rparr>)
        active_example)) = [(Fired, Resolved)]"
  by (simp add: example_defs run_defs)

theorem C9_witness:
  "\<not> IS_DONE active_example
   \<and> during_sleep (env_bought\<lparr>during_sleep := [Mint (Some meta_example), Collect, Sell]\<rparr>)
       = map Mint [Some meta_example] @ Collect # [Sell]
   \<and> IS_DONE (step_state (pace cfg_example
        (env_bought\<lparr>during_sleep := [Mint (Some meta_example), Collect, Sell]\<rparr>) active_example))
   \<and> sleeps (step_state (pace cfg_example
        (env_bought\<lparr>during_sleep := [Mint (Some meta_example), Collect, Sell]\<rparr>) active_example))
       = [(Cleared, Resolved)]"
proof -
  have h: "\<not> IS_DONE active_example"
    "during_sleep (env_bought\<lparr>during_sleep := [Mint (Some meta_example), Collect, Sell]\<rparr>)
       = map Mint [Some meta_example] @ Collect # [Sell]"
    by (simp_all add: example_defs)
  have v: "sleeps active_example = []" by (simp add: example_defs)
  from C9_collect_cancels_sleep [OF h, of cfg_example] v h show ?thesis by auto
qed



section \<open>The claims about the main thread\<close>

text \<open>
  Claim C2. The claim says that the detector confirms an identifier for a transaction
  only if the name and the symbol decoded from that transaction match the target and
  the identifier is among its signers. Both listeners assign the variable \<open>mint\<close> on a
  match, before the signer check, and never reset it: a transaction that matches and
  fails the signer check leaves its identifier behind, and a later transaction of the
  watched program that this identifier signs is confirmed, although it has no inner
  instruction at all. Here the first listener call gets a creation of the asset \<open>M\<close> that
  \<open>M\<close> does not sign, from an undefined \<open>mint\<close>, and the second the later transaction.
\<close>

theorem C2_stale_candidate_confirmed:
  "wait_drop_sub library_example ''Foo'' ''FOO'' (creation_example False) None
     = \<lparr>mint_after = Some ''M'', unsubscribed = False\<rparr>
   \<and> wait_drop_sub library_example ''Foo'' ''FOO'' unrelated_example (Some ''M'')
     = \<lparr>mint_after = Some ''M'', unsubscribed = True\<rparr>
   \<and> seen_instructions unrelated_example = []
   \<and> wait_drop_sub_bot library_example ''Foo'' ''FOO'' (creation_example False) None
     = \<lparr>mint_after = Some ''M'', unsubscribed = False\<rparr>
   \<and> wait_drop_sub_bot library_example ''Foo'' ''FOO'' unrelated_example (Some ''M'')
     = \<lparr>mint_after = Some ''M'', unsubscribed = True\<rparr>"
  by (simp add: detector_defs)

text \<open>
  Claim C3, as the code has it. \<open>start_workers\<close> ends the process with exit code 1 when
  there are no keys; otherwise it makes exactly \<open>thread_cnt\<close> workers, numbered from 1,
  the \<open>i\<close>-th with the \<open>i\<close>-th key (or none beyond the last key); when \<open>thread_cnt\<close> passes
  the check of the configuration prompt, \<open>validate_number(value, 0, keys_cnt)\<close>, that is
  the minimum of \<open>thread_cnt\<close> and the number of keys, and every worker has a key of its
  own.
\<close>

theorem C3_start_workers:
  "(secrets = [] \<longrightarrow> start_workers cfg secrets workers = Inl (Exit 1))
   \<and> (secrets \<noteq> [] \<longrightarrow>
        (\<exists>ws. start_workers cfg secrets [] = Inr ws
           \<and> length ws = nat (thread_cnt cfg)
           \<and> map wid ws = map (\<lambda>j. int j + 1) [0..<length ws]
           \<and> map secret ws = map (\<lambda>j. element secrets (int j)) [0..<length ws]))
   \<and> (secrets \<noteq> []
        \<and> validate_number (Some (thread_cnt cfg)) (Some 0) (Some (int (length secrets))) \<longrightarrow>
        (\<exists>ws. start_workers cfg secrets [] = Inr ws
           \<and> length ws = min (nat (thread_cnt cfg)) (length secrets)
           \<and> map wid ws = map (\<lambda>j. int j + 1) [0..<length ws]
           \<and> map secret ws = map Some (take (length ws) secrets)))"
proof (intro conjI impI)
  assume "secrets = []"
  then show "start_workers cfg secrets workers = Inl (Exit 1)" by (simp add: start_workers_def)
next
  assume "secrets \<noteq> []"
  then show "\<exists>ws. start_workers cfg secrets [] = Inr ws
           \<and> length ws = nat (thread_cnt cfg)
           \<and> map wid ws = map (\<lambda>j. int j + 1) [0..<length ws]
           \<and> map secret ws = map (\<lambda>j. element secrets (int j)) [0..<length ws]"
    by (simp add: start_workers_def start_workers_loop_eq comp_def)
next
  assume a: "secrets \<noteq> []
        \<and> validate_number (Some (thread_cnt cfg)) (Some 0) (Some (int (length secrets)))"
  then have le: "nat (thread_cnt cfg) \<le> length secrets"
    by (simp add: validate_number_def split: if_splits) linarith
  then have "map (\<lambda>j. element secrets (int j)) [0..<nat (thread_cnt cfg)]
      = map Some (take (nat (thread_cnt cfg)) secrets)"
    by (rule element_take)
  with a le show "\<exists>ws. start_workers cfg secrets [] = Inr ws
           \<and> length ws = min (nat (thread_cnt cfg)) (length secrets)
           \<and> map wid ws = map (\<lambda>j. int j + 1) [0..<length ws]
           \<and> map secret ws = map Some (take (length ws) secrets)"
    by (simp add: start_workers_def start_workers_loop_eq comp_def min_def)
qed

text \<open>
  Claim C3 as stated fails when \<open>thread_cnt\<close> exceeds the number of keys: with three
  workers asked for and one key, three workers are made, not one, and two of them
  without a key.
\<close>

theorem C3_more_workers_than_keys_counterexample:
  "start_workers bot_example [[7]] [] =
     Inr [\<lparr>secret = Some [7], wid = 1, config = bot_example\<rparr>,
          \<lparr>secret = None, wid = 2, config = bot_example\<rparr>,
          \<lparr>secret = None, wid = 3, config = bot_example\<rparr>]
   \<and> min (nat (thread_cnt bot_example)) (length [[7::nat]]) = 1"
  by (simp add: start_workers_def start_workers_loop_eq bot_example_def element_def
      upt_conv_Cons del: upt_Suc)

theorem C3_witness:
  "[[7], [8], [9], [10]] \<noteq> ([] :: secret list)
   \<and> validate_number (Some (thread_cnt bot_example)) (Some 0) (Some (int (length [[7::nat], [8], [9], [10]])))
   \<and> start_workers bot_example [[7], [8], [9], [10]] [] =
       Inr [\<lparr>secret = Some [7], wid = 1, config = bot_example\<rparr>,
            \<lparr>secret = Some [8], wid = 2, config = bot_example\<rparr>,
            \<lparr>secret = Some [9], wid = 3, config = bot_example\<rparr>]
   \<and> start_workers bot_example [] [] = Inl (Exit 1)"
proof -
  have h: "[[7], [8], [9], [10]] \<noteq> ([] :: secret list)"
    "validate_number (Some (thread_cnt bot_example)) (Some 0) (Some (int (length [[7::nat], [8], [9], [10]])))"
    by (simp_all add: validate_number_def bot_example_def)
  have v: "start_workers bot_example [[7], [8], [9], [10]] [] =
       Inr [\<lparr>secret = Some [7], wid = 1, config = bot_example\<rparr>,
            \<lparr>secret = Some [8], wid = 2, config = bot_example\<rparr>,
            \<lparr>secret = Some [9], wid = 3, config = bot_example\<rparr>]"
    by (simp add: start_workers_def start_workers_loop_eq bot_example_def element_def
      upt_conv_Cons del: upt_Suc)
  from C3_start_workers [of "[]" bot_example "[]"] h v
  show ?thesis by simp
qed

end
